theory Spec2Isabelle
  imports Main "HOL-Library.Word"
begin

section \<open>CYD Hurricane Tracker: acquisition, decode, carousel and backlight\<close>

text \<open>
  A shallow embedding of the C sources \<^verbatim>\<open>main/http_client.c\<close>,
  \<^verbatim>\<open>main/xml_parse.c\<close> and \<^verbatim>\<open>main/main.c\<close>. Every C function
  that is modelled keeps its name. What the firmware gets from outside (the events the
  HTTP client delivers, the callbacks expat makes, whether an allocation or a semaphore
  take succeeds, the clock) is an argument of the model.
\<close>

subsection \<open>Common types\<close>

datatype esp_err_t = ESP_OK | ESP_FAIL | ESP_ERR_NO_MEM | ESP_ERR_INVALID_ARG

type_synonym byte = "8 word"

text \<open>\<^verbatim>\<open>#define MAX_IMAGES 10\<close> (app\_config.h).\<close>

definition MAX_IMAGES :: nat where
  "MAX_IMAGES = 10"

text \<open>
  \<^verbatim>\<open>size_t\<close> has 32 bits on the ESP32-S3. Sizes are natural numbers below
  \<open>2 ^ 32\<close>; the conversion from \<^verbatim>\<open>int\<close> and the additions of the source are
  written with their wrap-around.
\<close>

definition size_t_of_int :: "int \<Rightarrow> nat" where
  "size_t_of_int i = nat (i mod 2 ^ 32)"

definition size_t_add :: "nat \<Rightarrow> nat \<Rightarrow> nat" where
  "size_t_add a b = (a + b) mod 2 ^ 32"

subsection \<open>The C library functions the sources call\<close>

text \<open>A C string ends at its first NUL character.\<close>

definition c_str :: "string \<Rightarrow> string" where
  "c_str s = takeWhile (\<lambda>c. c \<noteq> CHR 0x00) s"

definition isspace :: "char \<Rightarrow> bool" where
  "isspace c = (c = CHR '' '' \<or> (9 \<le> (of_char c :: nat) \<and> (of_char c :: nat) \<le> 13))"

definition isdigit :: "char \<Rightarrow> bool" where
  "isdigit c = (48 \<le> (of_char c :: nat) \<and> (of_char c :: nat) \<le> 57)"

definition tolower :: "char \<Rightarrow> char" where
  "tolower c = (if 65 \<le> (of_char c :: nat) \<and> (of_char c :: nat) \<le> 90
                then char_of ((of_char c :: nat) + 32) else c)"

text \<open>\<^verbatim>\<open>strcasecmp(a, b) == 0\<close>.\<close>

definition strcasecmp_eq :: "string \<Rightarrow> string \<Rightarrow> bool" where
  "strcasecmp_eq a b = (map tolower (c_str a) = map tolower (c_str b))"

text \<open>
  \<^verbatim>\<open>atoi\<close>: white space, an optional sign, then the longest run of decimal
  digits; 0 when there is none. A value that does not fit an \<^verbatim>\<open>int\<close> is
  clamped to the nearest one, as newlib's \<^verbatim>\<open>strtol\<close> does.
\<close>

fun atoi_digits :: "int \<Rightarrow> string \<Rightarrow> int" where
  "atoi_digits acc [] = acc"
| "atoi_digits acc (c # cs) =
     (if isdigit c then atoi_digits (acc * 10 + (int (of_char c) - 48)) cs else acc)"

definition strtol10 :: "string \<Rightarrow> int" where
  "strtol10 s =
     (case dropWhile isspace s of
        [] \<Rightarrow> 0
      | c # cs \<Rightarrow>
          if c = CHR ''-'' then - atoi_digits 0 cs
          else if c = CHR ''+'' then atoi_digits 0 cs
          else atoi_digits 0 (c # cs))"

definition atoi :: "string \<Rightarrow> int" where
  "atoi s = max (- (2 ^ 31)) (min (2 ^ 31 - 1) (strtol10 s))"

text \<open>
  \<^verbatim>\<open>memcpy(base + off, src, len)\<close> on a region that is modelled by the bytes
  stored in it, from offset 0 up to the highest offset written so far. Bytes of the
  region that were never written read as 0.
\<close>

definition memcpy_at :: "byte list \<Rightarrow> nat \<Rightarrow> byte list \<Rightarrow> byte list" where
  "memcpy_at mem off src =
     take off (mem @ replicate (off - length mem) 0) @ src @ drop (off + length src) mem"

subsection \<open>http\_client.c: the download buffer and the two event handlers\<close>

text \<open>
  \<^verbatim>\<open>http_download_t\<close> (http\_client.h). \<open>buffer\<close> is \<open>None\<close> for the NULL
  pointer; otherwise it holds the bytes stored in the allocated region so far. A region
  of \<open>buffer_allocated\<close> bytes is overrun when more than \<open>buffer_allocated\<close> bytes
  are stored in it.
\<close>

record http_download_t =
  buffer :: "byte list option"
  buffer_size :: nat
  buffer_allocated :: nat

text \<open>
  The events of \<^verbatim>\<open>esp_http_client_event_id_t\<close>, each with the fields of
  \<^verbatim>\<open>esp_http_client_event_t\<close> that the handlers read: the header key and
  value, and the data (\<^verbatim>\<open>data_len\<close> is its length).
\<close>

datatype http_event =
    HTTP_EVENT_ERROR
  | HTTP_EVENT_ON_CONNECTED
  | HTTP_EVENT_HEADER_SENT
  | HTTP_EVENT_ON_HEADER string string
  | HTTP_EVENT_ON_DATA "byte list"
  | HTTP_EVENT_ON_FINISH
  | HTTP_EVENT_DISCONNECTED
  | HTTP_EVENT_REDIRECT

text \<open>
  \<open>malloc_ok n\<close> tells whether \<^verbatim>\<open>malloc(n)\<close> succeeds; it is the heap's answer
  and an argument of every function that allocates.
\<close>

fun generic_http_event_handler ::
  "(nat \<Rightarrow> bool) \<Rightarrow> http_event \<Rightarrow> http_download_t \<Rightarrow> esp_err_t \<times> http_download_t" where
  "generic_http_event_handler malloc_ok (HTTP_EVENT_ON_HEADER header_key header_value) download =
     (if strcasecmp_eq header_key ''Content-Length'' then
        (let content_length = size_t_of_int (atoi header_value) in
         if content_length > 0 \<and> buffer download = None then
           (if malloc_ok (size_t_add content_length 1024) then
              (ESP_OK, download\<lparr>buffer := Some [],
                                buffer_allocated := size_t_add content_length 1024,
                                buffer_size := 0\<rparr>)
            else
              (ESP_FAIL, download\<lparr>buffer_allocated := size_t_add content_length 1024\<rparr>))
         else (ESP_OK, download))
      else (ESP_OK, download))"
| "generic_http_event_handler malloc_ok (HTTP_EVENT_ON_DATA evt_data) download =
     (case buffer download of
        None \<Rightarrow> (ESP_OK, download)
      | Some mem \<Rightarrow>
          if length evt_data > 0 then
            (if size_t_add (buffer_size download) (length evt_data) < buffer_allocated download then
               (let mem1 = memcpy_at mem (buffer_size download) evt_data;
                    size1 = size_t_add (buffer_size download) (length evt_data);
                    mem2 = (if buffer_allocated download > size1
                            then memcpy_at mem1 size1 [0] else mem1)
                in (ESP_OK, download\<lparr>buffer := Some mem2, buffer_size := size1\<rparr>))
             else (ESP_OK, download))
          else (ESP_OK, download))"
| "generic_http_event_handler malloc_ok _ download = (ESP_OK, download)"

text \<open>
  \<^verbatim>\<open>image_data_t\<close> (main.c): the three buffer fields of the download, the LVGL
  image descriptor, the validity flag and the time stamp. Of \<^verbatim>\<open>lv_img_dsc_t\<close>
  (LVGL 9) the model keeps the fields the firmware writes: \<^verbatim>\<open>header.w\<close>,
  \<^verbatim>\<open>header.h\<close>, \<^verbatim>\<open>header.cf\<close>, \<^verbatim>\<open>data\<close> (as an offset into the
  slot's buffer) and \<^verbatim>\<open>data_size\<close>.
\<close>

datatype lv_color_format_t =
    LV_COLOR_FORMAT_UNKNOWN
  | LV_COLOR_FORMAT_L8
  | LV_COLOR_FORMAT_RGB888
  | LV_COLOR_FORMAT_ARGB8888
  | LV_COLOR_FORMAT_XRGB8888
  | LV_COLOR_FORMAT_RGB565
  | LV_COLOR_FORMAT_ARGB8565
  | LV_COLOR_FORMAT_RGB565A8

record lv_img_dsc_t =
  header_w :: nat
  header_h :: nat
  header_cf :: lv_color_format_t
  data :: "nat option"
  data_size :: nat

record image_data_t = http_download_t +
  img_dsc :: lv_img_dsc_t
  is_valid :: bool
  download_timestamp :: int

text \<open>
  The globals of main.c that the modelled functions use. \<open>s_images\<close> is the array
  \<^verbatim>\<open>s_images[MAX_IMAGES]\<close>: only the indices below \<open>MAX_IMAGES\<close> are slots of
  the array, and every access of the model is guarded by that bound. The counters are
  C \<^verbatim>\<open>int\<close>s that the firmware only ever sets to values from 0 to
  \<open>MAX_IMAGES\<close>.
\<close>

record app_state =
  s_images :: "nat \<Rightarrow> image_data_t"
  s_current_image_index :: nat
  active_image_count :: nat
  image_urls :: "nat \<Rightarrow> string option"

definition set_image_buffer_info ::
  "nat \<Rightarrow> byte list option \<Rightarrow> nat \<Rightarrow> nat \<Rightarrow> bool \<Rightarrow> app_state \<Rightarrow> app_state" where
  "set_image_buffer_info image_index buf sz allocated valid s =
     (if image_index < MAX_IMAGES then
        s\<lparr>s_images := (s_images s)(image_index :=
             (s_images s image_index)\<lparr>buffer := buf, buffer_size := sz,
                                       buffer_allocated := allocated, is_valid := valid\<rparr>)\<rparr>
      else s)"

definition reset_image_buffer :: "nat \<Rightarrow> app_state \<Rightarrow> app_state" where
  "reset_image_buffer image_index s =
     (if image_index < MAX_IMAGES then
        s\<lparr>s_images := (s_images s)(image_index :=
             (s_images s image_index)\<lparr>buffer := None, buffer_size := 0,
                                       buffer_allocated := 0, is_valid := False,
                                       download_timestamp := 0\<rparr>)\<rparr>
      else s)"

text \<open>
  The handler of the per-image download. \<^verbatim>\<open>get_image_buffer_info\<close> reads the
  three buffer fields of the slot; the index was checked just before.
\<close>

fun image_http_event_handler ::
  "(nat \<Rightarrow> bool) \<Rightarrow> nat \<Rightarrow> http_event \<Rightarrow> app_state \<Rightarrow> esp_err_t \<times> app_state" where
  "image_http_event_handler malloc_ok image_index evt s =
     (if image_index \<ge> MAX_IMAGES then (ESP_FAIL, s)
      else
        (case evt of
           HTTP_EVENT_ON_HEADER header_key header_value \<Rightarrow>
             (if strcasecmp_eq header_key ''Content-Length'' then
                (let content_length = size_t_of_int (atoi header_value) in
                 if content_length > 0 \<and> buffer (s_images s image_index) = None then
                   (if malloc_ok (size_t_add content_length 1024) then
                      (ESP_OK, set_image_buffer_info image_index (Some []) 0
                                 (size_t_add content_length 1024) False s)
                    else (ESP_FAIL, s))
                 else (ESP_FAIL, s))
              else (ESP_OK, s))
         | HTTP_EVENT_ON_DATA evt_data \<Rightarrow>
             (if length evt_data > 0 then
                (case buffer (s_images s image_index) of
                   None \<Rightarrow> (ESP_OK, s)
                 | Some mem \<Rightarrow>
                     (ESP_OK, set_image_buffer_info image_index
                        (Some (memcpy_at mem (buffer_size (s_images s image_index)) evt_data))
                        (size_t_add (buffer_size (s_images s image_index)) (length evt_data))
                        (buffer_allocated (s_images s image_index)) False s))
              else (ESP_OK, s))
         | _ \<Rightarrow> (ESP_OK, s)))"

text \<open>
  \<^verbatim>\<open>esp_http_client_perform\<close> belongs to ESP-IDF. What it does is an argument:
  the events it hands to the handler, in order, its result and the status code of the
  response. The client goes on after a handler has returned an error.
\<close>

record http_exchange =
  init_ok :: bool
  events :: "http_event list"
  perform_err :: esp_err_t
  status_code :: int

fun deliver :: "('e \<Rightarrow> 's \<Rightarrow> esp_err_t \<times> 's) \<Rightarrow> 'e list \<Rightarrow> 's \<Rightarrow> 's" where
  "deliver handler [] s = s"
| "deliver handler (e # es) s = deliver handler es (snd (handler e s))"

definition http_download_free :: "http_download_t \<Rightarrow> http_download_t" where
  "http_download_free download =
     (if buffer download \<noteq> None
      then download\<lparr>buffer := None, buffer_size := 0, buffer_allocated := 0\<rparr>
      else download)"

text \<open>
  \<^verbatim>\<open>http_download_xml_feed\<close>; the URL is \<open>None\<close> for a NULL pointer and
  \<open>result\<close> is the structure the caller passes, which is zeroed first.
\<close>

definition http_download_xml_feed ::
  "(nat \<Rightarrow> bool) \<Rightarrow> string option \<Rightarrow> http_download_t \<Rightarrow> http_exchange
     \<Rightarrow> esp_err_t \<times> http_download_t" where
  "http_download_xml_feed malloc_ok url result x =
     (case url of
        None \<Rightarrow> (ESP_ERR_INVALID_ARG, result)
      | Some u \<Rightarrow>
          (let result0 = \<lparr>buffer = None, buffer_size = 0, buffer_allocated = 0\<rparr> in
           if \<not> init_ok x then (ESP_FAIL, result0)
           else
             (let result1 = deliver (generic_http_event_handler malloc_ok) (events x) result0 in
              if perform_err x = ESP_OK \<and> status_code x = 200 \<and> buffer result1 \<noteq> None
                 \<and> buffer_size result1 > 0
              then (ESP_OK, result1)
              else (ESP_FAIL, http_download_free result1))))"

text \<open>
  The request bodies of \<^verbatim>\<open>http_download_image\<close>, as the C string literals
  are concatenated, and the fixed URLs of app\_config.h. Strings held in a
  \<^verbatim>\<open>char *\<close> are modelled without their terminator.
\<close>

definition outlook_post_data_format :: string where
  \<open>outlook_post_data_format =
     ''{"url": "%s","cf": "RGB565","dither": "true","output": "bin","bigEndian": false,"maxSize": "800x420","crop": {"top": 65, "bottom": 70}}''\<close>

definition cone_post_data_format :: string where
  \<open>cone_post_data_format =
     ''{"url": "%s","cf": "RGB565","dither": "true","output": "bin","bigEndian": false,"maxSize": "800x420","crop": {"top": 50, "bottom": 40, "left": 7, "right": 7}}''\<close>

definition static_image_urls :: "string list" where
  "static_image_urls =
     [''https://www.nhc.noaa.gov/xgtwo/two_atl_7d0.png'',
      ''https://www.nhc.noaa.gov/xgtwo/two_atl_2d0.png'']"

definition is_outlook_image :: "string option \<Rightarrow> bool" where
  "is_outlook_image url =
     (case url of None \<Rightarrow> False | Some u \<Rightarrow> list_ex (\<lambda>s. u = s) static_image_urls)"

text \<open>
  The length of the request body: \<^verbatim>\<open>strlen(post_data_format) + url_len - 2\<close>,
  with the format chosen by \<^verbatim>\<open>is_outlook_image\<close>.
\<close>

definition post_data_len :: "string \<Rightarrow> nat" where
  "post_data_len url =
     (let post_data_format =
            (if is_outlook_image (Some url) then outlook_post_data_format
             else cone_post_data_format);
          url_len = length url
      in length post_data_format + url_len - 2)"

text \<open>
  The state \<^verbatim>\<open>app_main\<close> sets up before any task runs: every slot cleared,
  the cursor at 0, no URL.
\<close>

definition empty_slot :: image_data_t where
  "empty_slot =
     \<lparr>buffer = None, buffer_size = 0, buffer_allocated = 0,
      img_dsc = \<lparr>header_w = 0, header_h = 0, header_cf = LV_COLOR_FORMAT_UNKNOWN,
                 data = None, data_size = 0\<rparr>,
      is_valid = False, download_timestamp = 0\<rparr>"

definition app_main_init :: app_state where
  "app_main_init =
     \<lparr>s_images = (\<lambda>i. empty_slot), s_current_image_index = 0, active_image_count = 0,
      image_urls = (\<lambda>i. None)\<rparr>"

text \<open>
  \<^verbatim>\<open>http_download_image\<close>. The result is \<open>None\<close> where the C function
  dereferences a NULL pointer (\<^verbatim>\<open>strlen\<close> of a slot that has no URL).
\<close>

definition http_download_image ::
  "(nat \<Rightarrow> bool) \<Rightarrow> nat \<Rightarrow> http_exchange \<Rightarrow> app_state \<Rightarrow> (esp_err_t \<times> app_state) option" where
  "http_download_image malloc_ok image_index x s =
     (if image_index \<ge> MAX_IMAGES then Some (ESP_FAIL, s)
      else
        (let s1 = reset_image_buffer image_index s in
         case image_urls s1 image_index of
           None \<Rightarrow> None
         | Some url \<Rightarrow>
             (let post_data_len = post_data_len url in
                if \<not> malloc_ok (post_data_len + 1) then Some (ESP_ERR_NO_MEM, s1)
                else
                  (let s2 = deliver (image_http_event_handler malloc_ok image_index) (events x) s1;
                       err = perform_err x
                   in
                     if err = ESP_OK then
                       (if status_code x \<noteq> 200 then Some (ESP_FAIL, s2)
                        else if buffer (s_images s2 image_index) \<noteq> None
                                \<and> buffer_size (s_images s2 image_index) > 0 then
                          (if buffer_size (s_images s2 image_index) < 100 then Some (ESP_FAIL, s2)
                           else Some (ESP_OK,
                                  set_image_buffer_info image_index
                                    (buffer (s_images s2 image_index))
                                    (buffer_size (s_images s2 image_index))
                                    (buffer_allocated (s_images s2 image_index)) True s2))
                        else Some (ESP_FAIL, s2))
                     else Some (err, s2)))))"

subsection \<open>main.c: the image decoder\<close>

text \<open>
  The 12-byte header of the binary container. The ESP32-S3 is little-endian, so
  \<^verbatim>\<open>*(uint16_t*)(buffer + 4)\<close> is byte 4 plus 256 times byte 5. Reading the
  header needs the twelve bytes to be there: \<open>None\<close> is a read of a byte that the
  buffer does not hold.
\<close>

definition u16_le :: "byte \<Rightarrow> byte \<Rightarrow> nat" where
  "u16_le lo hi = unat lo + 256 * unat hi"

record image_header =
  magic :: byte
  color_format :: byte
  flags :: nat
  width :: nat
  height :: nat
  stride :: nat
  reserved :: nat

definition read_header :: "byte list \<Rightarrow> image_header option" where
  "read_header mem =
     (if length mem < 12 then None
      else Some \<lparr>magic = mem ! 0,
                 color_format = mem ! 1,
                 flags = u16_le (mem ! 2) (mem ! 3),
                 width = u16_le (mem ! 4) (mem ! 5),
                 height = u16_le (mem ! 6) (mem ! 7),
                 stride = u16_le (mem ! 8) (mem ! 9),
                 reserved = u16_le (mem ! 10) (mem ! 11)\<rparr>)"

text \<open>The first \<^verbatim>\<open>switch\<close>: the colour format code of the header.\<close>

definition cf_of_code :: "byte \<Rightarrow> lv_color_format_t" where
  "cf_of_code c =
     (if c = 0x12 then LV_COLOR_FORMAT_RGB565
      else if c = 0x0F then LV_COLOR_FORMAT_RGB888
      else if c = 0x10 then LV_COLOR_FORMAT_ARGB8888
      else if c = 0x14 then LV_COLOR_FORMAT_RGB565A8
      else if c = 0x13 then LV_COLOR_FORMAT_ARGB8565
      else if c = 0x11 then LV_COLOR_FORMAT_XRGB8888
      else if c = 0x06 then LV_COLOR_FORMAT_L8
      else LV_COLOR_FORMAT_RGB565)"

text \<open>The second \<^verbatim>\<open>switch\<close>: bytes per pixel.\<close>

fun bytes_per_pixel :: "lv_color_format_t \<Rightarrow> nat" where
  "bytes_per_pixel LV_COLOR_FORMAT_RGB565 = 2"
| "bytes_per_pixel LV_COLOR_FORMAT_RGB888 = 3"
| "bytes_per_pixel LV_COLOR_FORMAT_ARGB8888 = 4"
| "bytes_per_pixel LV_COLOR_FORMAT_XRGB8888 = 4"
| "bytes_per_pixel LV_COLOR_FORMAT_RGB565A8 = 3"
| "bytes_per_pixel LV_COLOR_FORMAT_ARGB8565 = 3"
| "bytes_per_pixel LV_COLOR_FORMAT_L8 = 1"
| "bytes_per_pixel _ = 2"

definition put_slot :: "nat \<Rightarrow> image_data_t \<Rightarrow> app_state \<Rightarrow> app_state" where
  "put_slot i d s = s\<lparr>s_images := (s_images s)(i := d)\<rparr>"

text \<open>
  \<^verbatim>\<open>process_downloaded_image\<close>; \<open>now\<close> is what \<^verbatim>\<open>time()\<close> returns.
  Width and height are at most 65535 and the product with the bytes per pixel is only
  formed after both were checked against 4096, so the multiplication does not wrap.
\<close>

definition process_downloaded_image ::
  "int \<Rightarrow> nat \<Rightarrow> app_state \<Rightarrow> (esp_err_t \<times> app_state) option" where
  "process_downloaded_image now image_index s =
     (if image_index \<ge> MAX_IMAGES then Some (ESP_FAIL, s)
      else
        (let img_data = s_images s image_index in
         case buffer img_data of
           None \<Rightarrow> Some (ESP_FAIL, s)
         | Some mem \<Rightarrow>
             if buffer_size img_data > 0 then
               (if buffer_size img_data < 8 then Some (ESP_FAIL, s)
                else if buffer_size img_data < 12 then Some (ESP_FAIL, s)
                else
                  (case read_header mem of
                     None \<Rightarrow> None
                   | Some hdr \<Rightarrow>
                       (let dsc1 = (img_dsc img_data)\<lparr>header_w := width hdr,
                                                      header_h := height hdr\<rparr>
                        in
                          if header_w dsc1 > 4096 \<or> header_h dsc1 > 4096
                             \<or> header_w dsc1 = 0 \<or> header_h dsc1 = 0
                          then Some (ESP_FAIL,
                                 put_slot image_index
                                   (img_data\<lparr>img_dsc := dsc1, is_valid := False\<rparr>) s)
                          else
                            (let dsc2 = dsc1\<lparr>header_cf := cf_of_code (color_format hdr),
                                             data := Some 12\<rparr>;
                                 expected_size =
                                   header_w dsc2 * header_h dsc2 * bytes_per_pixel (header_cf dsc2)
                             in
                               if buffer_size img_data < expected_size + 12
                               then Some (ESP_FAIL,
                                      put_slot image_index
                                        (img_data\<lparr>img_dsc := dsc2, is_valid := False\<rparr>) s)
                               else Some (ESP_OK,
                                      put_slot image_index
                                        (img_data\<lparr>img_dsc := dsc2\<lparr>data_size := expected_size\<rparr>,
                                                  is_valid := True,
                                                  download_timestamp := now\<rparr>) s)))))
             else Some (ESP_FAIL, s)))"

subsection \<open>main.c: the carousel\<close>

text \<open>
  What \<^verbatim>\<open>get_next_valid_image\<close> returns: the address of a slot's descriptor
  or of the bundled \<^verbatim>\<open>error_image\<close>.
\<close>

datatype image_ref = Slot_img_dsc nat | Error_image

text \<open>
  The \<^verbatim>\<open>while\<close> loop, with the cursor and \<^verbatim>\<open>attempts\<close> as arguments.
  The result carries the final cursor and the final \<^verbatim>\<open>attempts\<close>, which is the
  number of slots whose flag was found unset. \<open>None\<close> is a read outside the array.
\<close>

function get_next_valid_image_loop ::
  "(nat \<Rightarrow> image_data_t) \<Rightarrow> nat \<Rightarrow> nat \<Rightarrow> nat \<Rightarrow> (image_ref \<times> nat \<times> nat) option" where
  "get_next_valid_image_loop imgs images_to_check cur attempts =
     (if attempts < images_to_check then
        (if cur \<ge> MAX_IMAGES then None
         else if is_valid (imgs cur) then Some (Slot_img_dsc cur, cur, attempts)
         else get_next_valid_image_loop imgs images_to_check
                ((cur + 1) mod images_to_check) (attempts + 1))
      else Some (Error_image, cur, attempts))"
  by pat_completeness auto
termination
  by (relation "measure (\<lambda>(imgs, n, cur, attempts). n - attempts)") auto

declare get_next_valid_image_loop.simps [simp del]

definition images_to_check :: "app_state \<Rightarrow> nat" where
  "images_to_check s =
     (if active_image_count s > 0 then active_image_count s else MAX_IMAGES)"

definition get_next_valid_image :: "app_state \<Rightarrow> (image_ref \<times> nat \<times> app_state) option" where
  "get_next_valid_image s =
     (case get_next_valid_image_loop (s_images s) (images_to_check s)
             (s_current_image_index s) 0 of
        None \<Rightarrow> None
      | Some (r, cur, attempts) \<Rightarrow> Some (r, attempts, s\<lparr>s_current_image_index := cur\<rparr>))"

text \<open>
  One round of \<^verbatim>\<open>display_image_task\<close> after its notification: the image to
  show is chosen, then the cursor moves on by one within the images to cycle.
\<close>

definition display_image_task_round :: "app_state \<Rightarrow> (image_ref \<times> app_state) option" where
  "display_image_task_round s =
     (case get_next_valid_image s of
        None \<Rightarrow> None
      | Some (r, attempts, s1) \<Rightarrow>
          (let images_to_cycle =
                 (if active_image_count s1 > 0 then active_image_count s1 else MAX_IMAGES)
           in Some (r, s1\<lparr>s_current_image_index :=
                           (s_current_image_index s1 + 1) mod images_to_cycle\<rparr>)))"

subsection \<open>One refresh: download all images, then decode\<close>

text \<open>
  \<^verbatim>\<open>http_download_all_images\<close> (http\_client.c); \<open>xs i\<close> is the exchange
  that the download of image \<open>i\<close> gets. The loop runs over the indices below the
  active count, which no download changes; \<open>None\<close> is a read outside
  \<^verbatim>\<open>image_urls\<close>.
\<close>

fun download_each ::
  "(nat \<Rightarrow> bool) \<Rightarrow> (nat \<Rightarrow> http_exchange) \<Rightarrow> nat list \<Rightarrow> nat \<Rightarrow> app_state
     \<Rightarrow> (nat \<times> app_state) option" where
  "download_each malloc_ok xs [] successful_downloads s = Some (successful_downloads, s)"
| "download_each malloc_ok xs (i # rest) successful_downloads s =
     (if i \<ge> MAX_IMAGES then None
      else
        (case image_urls s i of
           None \<Rightarrow> download_each malloc_ok xs rest successful_downloads s
         | Some url \<Rightarrow>
             (case http_download_image malloc_ok i (xs i) s of
                None \<Rightarrow> None
              | Some (err, s1) \<Rightarrow>
                  download_each malloc_ok xs rest
                    (if err = ESP_OK then successful_downloads + 1 else successful_downloads) s1)))"

definition http_download_all_images ::
  "(nat \<Rightarrow> bool) \<Rightarrow> (nat \<Rightarrow> http_exchange) \<Rightarrow> app_state \<Rightarrow> (esp_err_t \<times> app_state) option" where
  "http_download_all_images malloc_ok xs s =
     (if active_image_count s = 0 then Some (ESP_FAIL, s)
      else
        (case download_each malloc_ok xs [0..<active_image_count s] 0 s of
           None \<Rightarrow> None
         | Some (successful_downloads, s1) \<Rightarrow>
             Some (if successful_downloads > 0 then ESP_OK else ESP_FAIL, s1)))"

text \<open>
  The download-and-process block of one cycle of \<^verbatim>\<open>update_image_task\<close>
  (main.c): all images are downloaded; if at least one download succeeded, every slot
  that has a buffer with data is decoded, and a slot whose decoding fails is marked
  invalid. The result is the image that is published (\<^verbatim>\<open>s_current_display_image\<close>).
  The update of the URLs before the block, the notification of the display task and the
  timer are not part of the model.
\<close>

fun process_each :: "int \<Rightarrow> nat list \<Rightarrow> nat \<Rightarrow> app_state \<Rightarrow> (nat \<times> app_state) option" where
  "process_each now [] processed_images s = Some (processed_images, s)"
| "process_each now (i # rest) processed_images s =
     (if buffer (s_images s i) \<noteq> None \<and> buffer_size (s_images s i) > 0 then
        (case process_downloaded_image now i s of
           None \<Rightarrow> None
         | Some (err, s1) \<Rightarrow>
             if err = ESP_OK then process_each now rest (processed_images + 1) s1
             else process_each now rest processed_images
                    (put_slot i ((s_images s1 i)\<lparr>is_valid := False\<rparr>) s1))
      else process_each now rest processed_images s)"

definition update_image_task_cycle ::
  "(nat \<Rightarrow> bool) \<Rightarrow> int \<Rightarrow> (nat \<Rightarrow> http_exchange) \<Rightarrow> app_state
     \<Rightarrow> (image_ref \<times> app_state) option" where
  "update_image_task_cycle malloc_ok now xs s =
     (case http_download_all_images malloc_ok xs s of
        None \<Rightarrow> None
      | Some (err, s1) \<Rightarrow>
          if err = ESP_OK then
            (case process_each now [0..<MAX_IMAGES] 0 s1 of
               None \<Rightarrow> None
             | Some (processed_images, s2) \<Rightarrow>
                 if processed_images > 0 then
                   (case get_next_valid_image s2 of
                      None \<Rightarrow> None
                    | Some (r, attempts, s3) \<Rightarrow> Some (r, s3))
                 else Some (Error_image, s2))
          else Some (Error_image, s1))"

subsection \<open>main.c: the backlight timer\<close>

text \<open>
  The build configuration (app\_config.h): \<^verbatim>\<open>ENABLE_PIR_BACKLIGHT_TIMER\<close> is
  only set without a touch screen.
\<close>

record build_config =
  CONFIG_ENABLE_TOUCHSCREEN :: bool
  CONFIG_ENABLE_PIR_BACKLIGHT_TIMER :: bool

definition ENABLE_TOUCHSCREEN :: "build_config \<Rightarrow> bool" where
  "ENABLE_TOUCHSCREEN cfg = CONFIG_ENABLE_TOUCHSCREEN cfg"

definition ENABLE_PIR_BACKLIGHT_TIMER :: "build_config \<Rightarrow> bool" where
  "ENABLE_PIR_BACKLIGHT_TIMER cfg =
     (\<not> ENABLE_TOUCHSCREEN cfg \<and> CONFIG_ENABLE_PIR_BACKLIGHT_TIMER cfg)"

text \<open>
  \<open>backlight_on\<close> is the global flag, \<open>bk_light_level_on\<close> tells whether the GPIO
  of the backlight is at its on level, \<open>timer_resets\<close> counts the
  \<^verbatim>\<open>xTimerReset\<close> commands sent for the backlight timer.
\<close>

record backlight =
  backlight_on :: bool
  bk_light_level_on :: bool
  timer_resets :: nat

text \<open>
  Each \<^verbatim>\<open>xSemaphoreTake(backlight_mutex, pdMS_TO_TICKS(10))\<close> either obtains the
  mutex within 10 ms or returns \<^verbatim>\<open>pdFALSE\<close>; its outcome is the argument
  \<open>taken\<close>.
\<close>

definition get_backlight_state :: "bool \<Rightarrow> backlight \<Rightarrow> bool" where
  "get_backlight_state taken b = (if taken then backlight_on b else False)"

definition set_backlight_state :: "bool \<Rightarrow> bool \<Rightarrow> backlight \<Rightarrow> backlight" where
  "set_backlight_state taken state b =
     (if taken then b\<lparr>bk_light_level_on := state, backlight_on := state\<rparr> else b)"

definition backlight_timer_callback ::
  "build_config \<Rightarrow> bool \<Rightarrow> bool \<Rightarrow> backlight \<Rightarrow> backlight" where
  "backlight_timer_callback cfg taken_get taken_set b =
     (if get_backlight_state taken_get b then
        (if ENABLE_TOUCHSCREEN cfg \<or> ENABLE_PIR_BACKLIGHT_TIMER cfg
         then set_backlight_state taken_set False b
         else b\<lparr>timer_resets := timer_resets b + 1\<rparr>)
      else b)"

subsection \<open>xml\_parse.c: the feed parser\<close>

text \<open>
  \<^verbatim>\<open>strstr\<close> and \<^verbatim>\<open>strchr\<close> return the offset of the first match in
  the C string, \<open>None\<close> for NULL.
\<close>

fun find_sub :: "string \<Rightarrow> string \<Rightarrow> nat option" where
  "find_sub needle [] = (if needle = [] then Some 0 else None)"
| "find_sub needle (h # hs) =
     (if take (length needle) (h # hs) = needle then Some 0
      else map_option Suc (find_sub needle hs))"

definition strstr :: "string \<Rightarrow> string \<Rightarrow> nat option" where
  "strstr haystack needle = find_sub needle (c_str haystack)"

definition strchr :: "string \<Rightarrow> char \<Rightarrow> nat option" where
  "strchr s ch =
     (if ch \<in> set (c_str s) then Some (length (takeWhile (\<lambda>c. c \<noteq> ch) (c_str s))) else None)"

text \<open>
  \<^verbatim>\<open>ctx_t\<close>. The three flags are \<^verbatim>\<open>int\<close>s that only hold 0 or 1.
  \<open>title\<close> is the C string in \<^verbatim>\<open>char title[256]\<close>; \<open>description\<close> is
  \<open>None\<close> for NULL and otherwise the \<open>description_size\<close> bytes stored in the
  buffer; \<open>all_urls\<close> is \<open>None\<close> for NULL and otherwise the entries stored in the
  array. \<open>stdout\<close> is not a field of the struct: it collects the lines that
  \<^verbatim>\<open>printf\<close> writes.
\<close>

record ctx_t =
  in_item :: bool
  in_title :: bool
  in_description :: bool
  title :: string
  description :: "string option"
  description_size :: nat
  description_capacity :: nat
  found_url :: "string option"
  all_urls :: "string list option"
  url_count :: nat
  url_capacity :: nat
  stdout :: "string list"

definition ctx_zero :: ctx_t where
  "ctx_zero =
     \<lparr>in_item = False, in_title = False, in_description = False, title = [],
      description = None, description_size = 0, description_capacity = 0,
      found_url = None, all_urls = None, url_count = 0, url_capacity = 0, stdout = []\<rparr>"

definition start_elem :: "(nat \<Rightarrow> bool) \<Rightarrow> string \<Rightarrow> ctx_t \<Rightarrow> ctx_t" where
  "start_elem malloc_ok el c =
     (if el = ''item'' then
        (let c1 = c\<lparr>in_item := True, title := []\<rparr> in
         case description c1 of
           None \<Rightarrow>
             (let c2 = c1\<lparr>description_capacity := 4096\<rparr> in
              if malloc_ok 4096 then c2\<lparr>description := Some [], description_size := 0\<rparr>
              else c2)
         | Some d \<Rightarrow> c1\<lparr>description := Some [], description_size := 0\<rparr>)
      else if in_item c \<and> el = ''title'' then c\<lparr>in_title := True\<rparr>
      else if in_item c \<and> el = ''description'' then c\<lparr>in_description := True\<rparr>
      else c)"

text \<open>
  \<^verbatim>\<open>add_url_to_array\<close>; a pointer has 4 bytes. \<open>None\<close> is the store through
  a NULL \<^verbatim>\<open>all_urls\<close>.
\<close>

definition add_url_to_array :: "(nat \<Rightarrow> bool) \<Rightarrow> string \<Rightarrow> ctx_t \<Rightarrow> ctx_t option" where
  "add_url_to_array malloc_ok url c =
     (let grown =
            (if url_count c \<ge> url_capacity c then
               (let new_capacity = (if url_capacity c = 0 then 4 else url_capacity c * 2) in
                if malloc_ok (new_capacity * 4)
                then Some (c\<lparr>all_urls := Some (case all_urls c of None \<Rightarrow> [] | Some us \<Rightarrow> us),
                             url_capacity := new_capacity\<rparr>)
                else None)
             else Some c)
      in case grown of
           None \<Rightarrow> Some c
         | Some c1 \<Rightarrow>
             (case all_urls c1 of
                None \<Rightarrow> None
              | Some us \<Rightarrow>
                  if malloc_ok (length url + 1)
                  then Some (c1\<lparr>all_urls := Some (take (url_count c1) us @ [url]),
                                url_count := url_count c1 + 1\<rparr>)
                  else Some c1))"

text \<open>
  \<^verbatim>\<open>end_elem\<close>. \<open>None\<close> is \<^verbatim>\<open>strstr\<close> of a NULL description or the
  NULL store of \<^verbatim>\<open>add_url_to_array\<close>. The quote that is overwritten with NUL is
  restored before the function returns, so the description is left as it was.
\<close>

definition end_elem :: "(nat \<Rightarrow> bool) \<Rightarrow> string \<Rightarrow> ctx_t \<Rightarrow> ctx_t option" where
  \<open>end_elem malloc_ok el c =
     (if el = ''item'' then
        (if strstr (title c) ''Graphics'' \<noteq> None then
           (case description c of
              None \<Rightarrow> None
            | Some desc \<Rightarrow>
                (case strstr desc ''src="'' of
                   Some i \<Rightarrow>
                     (let p = drop (i + 5) (c_str desc) in
                      case strchr p (CHR 0x22) of
                        Some j \<Rightarrow>
                          (let url = take j p;
                               c1 = c\<lparr>stdout := stdout c @ [''Storm Graphics URL: '' @ url]\<rparr>;
                               c2 = (if found_url c1 = None \<and> malloc_ok (length url + 1)
                                     then c1\<lparr>found_url := Some url\<rparr> else c1)
                           in
                             if all_urls c2 \<noteq> None \<or> url_capacity c2 > 0
                             then map_option (\<lambda>c3. c3\<lparr>in_item := False\<rparr>)
                                    (add_url_to_array malloc_ok url c2)
                             else Some (c2\<lparr>in_item := False\<rparr>))
                      | None \<Rightarrow> Some (c\<lparr>in_item := False\<rparr>))
                 | None \<Rightarrow>
                     (case strstr desc ''href="'' of
                        Some i \<Rightarrow>
                          (let p = drop (i + 6) (c_str desc) in
                           case strchr p (CHR 0x22) of
                             Some j \<Rightarrow>
                               Some (c\<lparr>stdout := stdout c @ [''Storm Cone Page URL: '' @ take j p],
                                       in_item := False\<rparr>)
                           | None \<Rightarrow> Some (c\<lparr>in_item := False\<rparr>))
                      | None \<Rightarrow> Some (c\<lparr>in_item := False\<rparr>))))
         else Some (c\<lparr>in_item := False\<rparr>))
      else if el = ''title'' then Some (c\<lparr>in_title := False\<rparr>)
      else if el = ''description'' then Some (c\<lparr>in_description := False\<rparr>)
      else Some c)\<close>

text \<open>
  The doubling loop of \<^verbatim>\<open>char_data\<close>. It starts from 4096 or from twice a
  capacity that is not 0; the guard \<open>0 < new_capacity\<close> is there for the definition
  to be total.
\<close>

function grow_capacity :: "nat \<Rightarrow> nat \<Rightarrow> nat" where
  "grow_capacity new_capacity needed =
     (if new_capacity < needed \<and> 0 < new_capacity
      then grow_capacity (new_capacity * 2) needed else new_capacity)"
  by pat_completeness auto
termination
  by (relation "measure (\<lambda>(new_capacity, needed). needed - new_capacity)") auto

declare grow_capacity.simps [simp del]

text \<open>
  \<^verbatim>\<open>char_data\<close>; \<open>s\<close> holds the \<^verbatim>\<open>len\<close> characters expat passes.
  \<^verbatim>\<open>strncat\<close> appends at most \<open>copy_len\<close> characters and stops at a NUL. The
  title never has more than 255 characters, so \<open>256 - current_len - 1\<close> does not wrap.
\<close>

definition char_data :: "(nat \<Rightarrow> bool) \<Rightarrow> string \<Rightarrow> ctx_t \<Rightarrow> ctx_t" where
  "char_data malloc_ok s c =
     (if in_title c then
        (let current_len = length (title c);
             available = 256 - current_len - 1
         in
           if available > 0 then
             (let copy_len = (if length s < available then length s else available)
              in c\<lparr>title := title c @ c_str (take copy_len s)\<rparr>)
           else c)
      else
        (case description c of
           None \<Rightarrow> c
         | Some desc \<Rightarrow>
             if in_description c then
               (let needed = description_size c + length s + 1 in
                if needed > description_capacity c then
                  (let new_capacity =
                         grow_capacity
                           (if description_capacity c = 0 then 4096
                            else description_capacity c * 2) needed
                   in
                     if malloc_ok new_capacity
                     then c\<lparr>description_capacity := new_capacity,
                            description := Some (take (description_size c) desc @ s),
                            description_size := description_size c + length s\<rparr>
                     else c)
                else c\<lparr>description := Some (take (description_size c) desc @ s),
                       description_size := description_size c + length s\<rparr>)
             else c))"

text \<open>
  \<^verbatim>\<open>XML_Parse\<close> belongs to expat. What it does on a buffer is an argument: the
  handler calls it makes before it returns, in order, and whether it returns a nonzero
  status. On a structural error it has made the calls for the part of the document that
  precedes the error.
\<close>

datatype sax_event = StartElement string | EndElement string | CharacterData string

record expat_run =
  callbacks :: "sax_event list"
  status_ok :: bool

fun XML_Parse :: "(nat \<Rightarrow> bool) \<Rightarrow> sax_event list \<Rightarrow> ctx_t \<Rightarrow> ctx_t option" where
  "XML_Parse malloc_ok [] c = Some c"
| "XML_Parse malloc_ok (StartElement el # es) c = XML_Parse malloc_ok es (start_elem malloc_ok el c)"
| "XML_Parse malloc_ok (CharacterData s # es) c = XML_Parse malloc_ok es (char_data malloc_ok s c)"
| "XML_Parse malloc_ok (EndElement el # es) c =
     (case end_elem malloc_ok el c of
        None \<Rightarrow> None
      | Some c1 \<Rightarrow> XML_Parse malloc_ok es c1)"

text \<open>
  \<^verbatim>\<open>xml_parse_all_cone_image_urls\<close> returns the array (\<open>None\<close> for NULL) and
  the value stored in \<^verbatim>\<open>*count\<close>; \<^verbatim>\<open>xml_parse_cone_image_url\<close> returns the
  first URL (\<open>None\<close> for NULL). The outer \<open>None\<close> is a NULL dereference in a
  handler.
\<close>

definition xml_parse_all_cone_image_urls ::
  "(nat \<Rightarrow> bool) \<Rightarrow> expat_run \<Rightarrow> (string list option \<times> nat) option" where
  "xml_parse_all_cone_image_urls malloc_ok run =
     (let ctx = ctx_zero\<lparr>url_capacity := 4\<rparr> in
      if \<not> malloc_ok (4 * 4) then Some (None, 0)
      else
        (case XML_Parse malloc_ok (callbacks run) (ctx\<lparr>all_urls := Some []\<rparr>) of
           None \<Rightarrow> None
         | Some c \<Rightarrow>
             if \<not> status_ok run then Some (None, 0)
             else if url_count c = 0 then Some (None, url_count c)
             else Some (all_urls c, url_count c)))"

definition xml_parse_cone_image_url :: "(nat \<Rightarrow> bool) \<Rightarrow> expat_run \<Rightarrow> string option option" where
  "xml_parse_cone_image_url malloc_ok run =
     map_option found_url (XML_Parse malloc_ok (callbacks run) ctx_zero)"

subsection \<open>Notions used to state the properties\<close>

text \<open>\<^verbatim>\<open>evt->data_len\<close>, and the number of body bytes of a whole exchange.\<close>

fun data_len :: "http_event \<Rightarrow> nat" where
  "data_len (HTTP_EVENT_ON_DATA evt_data) = length evt_data"
| "data_len _ = 0"

definition body_length :: "http_event list \<Rightarrow> nat" where
  "body_length evs = sum_list (map data_len evs)"

text \<open>
  A download buffer is within its capacity when the bytes stored and the byte count both
  fit the allocation. The terminator that the feed handler writes after the data is one
  more stored byte. Allocations on the device are far below \<open>2 ^ 31\<close> bytes.
\<close>

definition within_capacity :: "http_download_t \<Rightarrow> bool" where
  "within_capacity d =
     (case buffer d of
        None \<Rightarrow> True
      | Some mem \<Rightarrow> buffer_size d \<le> buffer_allocated d \<and> length mem \<le> buffer_allocated d
                    \<and> length mem \<le> buffer_size d + 1 \<and> buffer_allocated d \<le> 2 ^ 31)"

definition download_zero :: http_download_t where
  "download_zero = \<lparr>buffer = None, buffer_size = 0, buffer_allocated = 0\<rparr>"

text \<open>The state after start-up with one URL assigned to slot 0.\<close>

definition one_url_state :: app_state where
  "one_url_state = app_main_init\<lparr>image_urls := (\<lambda>i. None)(0 := Some ''http://a/1.png'')\<rparr>"

text \<open>
  An exchange of two responses, as after a redirect: the first declares and delivers 10
  bytes, the second declares and delivers 2000. And an exchange of one response that
  declares and delivers 50 bytes.
\<close>

definition overlong_exchange :: http_exchange where
  "overlong_exchange =
     \<lparr>init_ok = True,
      events = [HTTP_EVENT_ON_HEADER ''Content-Length'' ''10'',
                HTTP_EVENT_ON_DATA (replicate 10 1),
                HTTP_EVENT_ON_HEADER ''Content-Length'' ''2000'',
                HTTP_EVENT_ON_DATA (replicate 2000 2)],
      perform_err = ESP_OK, status_code = 200\<rparr>"

definition short_exchange :: http_exchange where
  "short_exchange =
     \<lparr>init_ok = True,
      events = [HTTP_EVENT_ON_HEADER ''Content-Length'' ''50'',
                HTTP_EVENT_ON_DATA (replicate 50 1)],
      perform_err = ESP_OK, status_code = 200\<rparr>"

text \<open>
  A container of one RGB565 pixel whose magic byte is not 0x19, and the start-up state
  with that container downloaded into slot 0.
\<close>

definition one_pixel_container :: "byte list" where
  "one_pixel_container = [0xAB, 0x12, 0, 0, 1, 0, 1, 0, 2, 0, 0, 0, 0x34, 0x12]"

definition one_pixel_state :: app_state where
  "one_pixel_state =
     app_main_init\<lparr>s_images := (\<lambda>i. empty_slot)
       (0 := empty_slot\<lparr>buffer := Some one_pixel_container, buffer_size := 14,
                        buffer_allocated := 1038\<rparr>)\<rparr>"

text \<open>An exchange that declares 14 bytes and delivers the one-pixel container.\<close>

definition one_pixel_exchange :: http_exchange where
  "one_pixel_exchange =
     \<lparr>init_ok = True,
      events = [HTTP_EVENT_ON_HEADER ''Content-Length'' ''14'',
                HTTP_EVENT_ON_DATA one_pixel_container],
      perform_err = ESP_OK, status_code = 200\<rparr>"

text \<open>
  A refresh of two images: the first response is a container of 5 by 10 RGB565 pixels
  (112 bytes), the second is the one-pixel container (14 bytes).
\<close>

definition five_by_ten_container :: "byte list" where
  "five_by_ten_container = [0x19, 0x12, 0, 0, 5, 0, 10, 0, 10, 0, 0, 0] @ replicate 100 0"

definition two_url_state :: app_state where
  "two_url_state =
     app_main_init\<lparr>image_urls := (\<lambda>i. None)(0 := Some ''http://a/1.png'', 1 := Some ''http://a/2.png''),
                    active_image_count := 2\<rparr>"

definition two_exchanges :: "nat \<Rightarrow> http_exchange" where
  "two_exchanges =
     (\<lambda>i. one_pixel_exchange)
       (0 := \<lparr>init_ok = True,
              events = [HTTP_EVENT_ON_HEADER ''Content-Length'' ''112'',
                        HTTP_EVENT_ON_DATA five_by_ten_container],
              perform_err = ESP_OK, status_code = 200\<rparr>)"

text \<open>
  Carousel states: start-up state with the given active count and cursor, and slot
  \<open>k\<close> as the only slot whose flag is set.
\<close>

definition only_slot_valid :: "nat \<Rightarrow> nat \<Rightarrow> image_data_t" where
  "only_slot_valid k = (\<lambda>i. empty_slot)(k := empty_slot\<lparr>is_valid := True\<rparr>)"

definition carousel_state :: "nat \<Rightarrow> nat \<Rightarrow> nat \<Rightarrow> app_state" where
  "carousel_state active cur k =
     app_main_init\<lparr>s_images := only_slot_valid k, s_current_image_index := cur,
                    active_image_count := active\<rparr>"

text \<open>Backlight: the two kinds of build, and the state with the backlight on.\<close>

definition touch_build :: build_config where
  "touch_build = \<lparr>CONFIG_ENABLE_TOUCHSCREEN = True, CONFIG_ENABLE_PIR_BACKLIGHT_TIMER = False\<rparr>"

definition no_input_build :: build_config where
  "no_input_build = \<lparr>CONFIG_ENABLE_TOUCHSCREEN = False, CONFIG_ENABLE_PIR_BACKLIGHT_TIMER = False\<rparr>"

definition backlight_lit :: backlight where
  "backlight_lit = \<lparr>backlight_on = True, bk_light_level_on = True, timer_resets = 0\<rparr>"

text \<open>
  The handler calls expat makes for one \<^verbatim>\<open><item>\<close> with a title and a
  description, each delivered as one run of character data, and for a feed with the
  given items (title and description of each).
\<close>

definition item_events :: "string \<Rightarrow> string \<Rightarrow> sax_event list" where
  "item_events t d =
     [StartElement ''item'', StartElement ''title'', CharacterData t, EndElement ''title'',
      StartElement ''description'', CharacterData d, EndElement ''description'',
      EndElement ''item'']"

definition feed_of :: "(string \<times> string) list \<Rightarrow> sax_event list" where
  "feed_of items =
     [StartElement ''rss'', StartElement ''channel'']
     @ concat (map (\<lambda>(t, d). item_events t d) items)
     @ [EndElement ''channel'', EndElement ''rss'']"

text \<open>
  The URLs that \<^verbatim>\<open>end_elem\<close> takes from one item with title \<open>t\<close> and
  description \<open>d\<close>: none or one. The title buffer keeps the first 255 characters.
\<close>

definition src_attr :: string where
  \<open>src_attr = ''src="''\<close>

definition item_url :: "string \<Rightarrow> string \<Rightarrow> string list" where
  \<open>item_url t d =
     (if strstr (c_str (take 255 t)) ''Graphics'' \<noteq> None then
        (case strstr d ''src="'' of
           None \<Rightarrow> []
         | Some i \<Rightarrow>
             (case strchr (drop (i + 5) (c_str d)) (CHR 0x22) of
                None \<Rightarrow> []
              | Some j \<Rightarrow> [take j (drop (i + 5) (c_str d))]))
      else [])\<close>

text \<open>
  A feed that breaks off inside its second item: expat has made the calls for the first
  item and reports an error.
\<close>

definition truncated_feed :: expat_run where
  \<open>truncated_feed =
     \<lparr>callbacks = [StartElement ''rss'', StartElement ''channel'']
                   @ item_events ''Graphics Update'' ''<img src="http://a/1.png">''
                   @ [StartElement ''item'', StartElement ''title''],
      status_ok = False\<rparr>\<close>

text \<open>
  The contexts in which no handler dereferences a NULL pointer: the URL array is
  allocated, and a description buffer exists as soon as an item was opened.
\<close>

definition ctx_ok :: "ctx_t \<Rightarrow> bool" where
  "ctx_ok c =
     (all_urls c \<noteq> None \<and>
      (case description c of
         None \<Rightarrow> \<not> in_item c \<and> \<not> in_title c \<and> title c = []
       | Some d \<Rightarrow> True))"

section \<open>Properties\<close>

subsection \<open>Evaluation of the library functions\<close>

lemma atoi_100: "atoi ''100'' = 100"
  by (simp add: atoi_def strtol10_def isspace_def isdigit_def)

lemma atoi_10: "atoi ''10'' = 10"
  by (simp add: atoi_def strtol10_def isspace_def isdigit_def)

lemma atoi_2000: "atoi ''2000'' = 2000"
  by (simp add: atoi_def strtol10_def isspace_def isdigit_def)

lemma atoi_14: "atoi ''14'' = 14"
  by (simp add: atoi_def strtol10_def isspace_def isdigit_def)

lemma atoi_112: "atoi ''112'' = 112"
  by (simp add: atoi_def strtol10_def isspace_def isdigit_def)

lemma atoi_50: "atoi ''50'' = 50"
  by (simp add: atoi_def strtol10_def isspace_def isdigit_def)

lemma content_length_key: "strcasecmp_eq ''Content-Length'' ''Content-Length''"
  by (simp add: strcasecmp_eq_def)

lemma length_memcpy_at:
  "length mem \<le> off + length src \<Longrightarrow> length (memcpy_at mem off src) = off + length src"
  by (simp add: memcpy_at_def)

subsection \<open>The feed download stays within its buffer\<close>

lemma generic_step_within:
  assumes m: "\<forall>n. malloc_ok n \<longrightarrow> n \<le> 2 ^ 31" and e: "data_len e < 2 ^ 31"
    and w: "within_capacity d"
  shows "within_capacity (snd (generic_http_event_handler malloc_ok e d))"
proof (cases e)
  case (HTTP_EVENT_ON_HEADER k v)
  then show ?thesis using w m
    by (auto simp: within_capacity_def Let_def split: option.splits)
next
  case (HTTP_EVENT_ON_DATA evt_data)
  show ?thesis
  proof (cases "buffer d")
    case None
    then show ?thesis using w HTTP_EVENT_ON_DATA by (simp add: within_capacity_def)
  next
    case (Some mem)
    from w Some have b: "buffer_size d \<le> buffer_allocated d" "length mem \<le> buffer_allocated d"
      "length mem \<le> buffer_size d + 1" "buffer_allocated d \<le> 2 ^ 31"
      by (simp_all add: within_capacity_def)
    from e HTTP_EVENT_ON_DATA have l: "length evt_data < 2 ^ 31" by simp
    have nowrap: "size_t_add (buffer_size d) (length evt_data) = buffer_size d + length evt_data"
      using b l by (simp add: size_t_add_def)
    show ?thesis
    proof (cases "length evt_data > 0 \<and> buffer_size d + length evt_data < buffer_allocated d")
      case False
      then show ?thesis using w Some HTTP_EVENT_ON_DATA nowrap by auto
    next
      case True
      let ?mem1 = "memcpy_at mem (buffer_size d) evt_data"
      let ?size1 = "buffer_size d + length evt_data"
      from True have "1 \<le> length evt_data" by (cases evt_data) simp_all
      with b(3) have "length mem \<le> buffer_size d + length evt_data" by linarith
      then have l1: "length ?mem1 = ?size1"
        by (rule length_memcpy_at)
      have l2: "length (memcpy_at ?mem1 ?size1 [0]) = ?size1 + 1"
        using l1 by (simp add: length_memcpy_at)
      have "snd (generic_http_event_handler malloc_ok e d)
            = d\<lparr>buffer := Some (memcpy_at ?mem1 ?size1 [0]), buffer_size := ?size1\<rparr>"
        using True Some HTTP_EVENT_ON_DATA nowrap by (simp add: Let_def)
      then show ?thesis using True b(4) l2 by (simp add: within_capacity_def)
    qed
  qed
qed (use w in \<open>simp_all\<close>)

text \<open>
  The handler of the feed download checks every data event against the capacity
  (\<^verbatim>\<open>buffer_size + data_len < buffer_allocated\<close>), so whatever the events are the
  buffer stays within its allocation.
\<close>

lemma generic_deliver_within:
  assumes m: "\<forall>n. malloc_ok n \<longrightarrow> n \<le> 2 ^ 31"
  shows "\<forall>e \<in> set evs. data_len e < 2 ^ 31 \<Longrightarrow> within_capacity d \<Longrightarrow>
         within_capacity (deliver (generic_http_event_handler malloc_ok) evs d)"
proof (induction evs arbitrary: d)
  case Nil
  then show ?case by simp
next
  case (Cons e evs)
  have "within_capacity (snd (generic_http_event_handler malloc_ok e d))"
    using generic_step_within [OF m] Cons.prems by simp
  then show ?case using Cons by simp
qed

lemma generic_download_within_capacity:
  assumes "\<forall>n. malloc_ok n \<longrightarrow> n \<le> 2 ^ 31" and "\<forall>e \<in> set evs. data_len e < 2 ^ 31"
  shows "within_capacity (deliver (generic_http_event_handler malloc_ok) evs download_zero)"
proof -
  have "within_capacity download_zero"
    by (simp add: within_capacity_def download_zero_def)
  with assms show ?thesis by (rule generic_deliver_within)
qed

subsection \<open>The image download can overrun its buffer\<close>

text \<open>
  C1. The claim: on both download paths a data event that would extend past the capacity
  is dropped, so the final \<open>buffer_size\<close> is at most \<open>buffer_allocated\<close> and no
  write lands outside the allocation. The feed path does that
  (\<open>generic_download_within_capacity\<close>). The handler of the image path copies every
  data event without looking at the capacity. When a first response of 10 bytes is
  followed by a second of 2000 bytes, the buffer allocated for the first (1034 bytes) is
  kept, the second \<^verbatim>\<open>Content-Length\<close> is refused, and the 2000 bytes are
  copied all the same: \<^verbatim>\<open>http_download_image\<close> returns \<^verbatim>\<open>ESP_OK\<close>
  and leaves slot 0 marked valid with 2010 bytes stored in an allocation of 1034.
\<close>

theorem image_download_overruns_buffer:
  "\<exists>s'. http_download_image (\<lambda>n. True) 0 overlong_exchange one_url_state = Some (ESP_OK, s')
        \<and> is_valid (s_images s' 0)
        \<and> buffer_allocated (s_images s' 0) = 1034
        \<and> buffer_size (s_images s' 0) = 2010
        \<and> map_option length (buffer (s_images s' 0)) = Some 2010"
  by (simp add: http_download_image_def overlong_exchange_def one_url_state_def app_main_init_def
        empty_slot_def reset_image_buffer_def set_image_buffer_info_def MAX_IMAGES_def
        atoi_10 atoi_2000 content_length_key size_t_of_int_def size_t_add_def memcpy_at_def
        Let_def)

subsection \<open>Content-Length 100 and three chunks of 40 bytes\<close>

text \<open>
  C3, as the code has it. The capacity is the declared length plus 1024, that is 1124
  bytes, so all three chunks of 40 bytes are kept: the buffer holds the 120 body bytes in
  order, followed by the terminator, and \<open>buffer_size\<close> is 120. Nothing is discarded.
\<close>

theorem content_length_100_keeps_all_120_bytes:
  assumes "length c1 = 40" and "length c2 = 40" and "length c3 = 40" and "malloc_ok 1124"
  shows "deliver (generic_http_event_handler malloc_ok)
           [HTTP_EVENT_ON_HEADER ''Content-Length'' ''100'', HTTP_EVENT_ON_DATA c1,
            HTTP_EVENT_ON_DATA c2, HTTP_EVENT_ON_DATA c3] download_zero
         = \<lparr>buffer = Some (c1 @ c2 @ c3 @ [0]), buffer_size = 120, buffer_allocated = 1124\<rparr>"
  using assms
  by (simp add: download_zero_def atoi_100 content_length_key size_t_of_int_def size_t_add_def
        memcpy_at_def Let_def)

theorem content_length_100_keeps_all_120_bytes_witness:
  "deliver (generic_http_event_handler (\<lambda>n. n \<le> 4096))
           [HTTP_EVENT_ON_HEADER ''Content-Length'' ''100'', HTTP_EVENT_ON_DATA (replicate 40 1),
            HTTP_EVENT_ON_DATA (replicate 40 2), HTTP_EVENT_ON_DATA (replicate 40 3)] download_zero
         = \<lparr>buffer = Some (replicate 40 1 @ replicate 40 2 @ replicate 40 3 @ [0]),
            buffer_size = 120, buffer_allocated = 1124\<rparr>"
  using content_length_100_keeps_all_120_bytes
          [of "replicate 40 1" "replicate 40 2" "replicate 40 3" "\<lambda>n. n \<le> 4096"]
  by simp

text \<open>
  The claim as stated (the buffer holds exactly the first 100 bytes, the last 20 are
  discarded) fails: the byte count is not 100, and the bytes stored from offset 100 on
  are the last 20 bytes of the third chunk and the terminator.
\<close>

theorem content_length_100_not_truncated:
  "buffer_size (deliver (generic_http_event_handler (\<lambda>n. True))
           [HTTP_EVENT_ON_HEADER ''Content-Length'' ''100'', HTTP_EVENT_ON_DATA (replicate 40 1),
            HTTP_EVENT_ON_DATA (replicate 40 2), HTTP_EVENT_ON_DATA (replicate 40 3)] download_zero)
     \<noteq> 100
   \<and> map_option (drop 100) (buffer (deliver (generic_http_event_handler (\<lambda>n. True))
           [HTTP_EVENT_ON_HEADER ''Content-Length'' ''100'', HTTP_EVENT_ON_DATA (replicate 40 1),
            HTTP_EVENT_ON_DATA (replicate 40 2), HTTP_EVENT_ON_DATA (replicate 40 3)] download_zero))
     = Some (replicate 20 3 @ [0])"
  by (simp add: download_zero_def atoi_100 content_length_key size_t_of_int_def size_t_add_def
        memcpy_at_def Let_def)

subsection \<open>An image of fewer than 100 bytes is refused\<close>

lemma image_step_not_valid:
  "\<not> is_valid (s_images s i) \<Longrightarrow>
   \<not> is_valid (s_images (snd (image_http_event_handler m i e s)) i)"
  by (cases e) (auto simp: set_image_buffer_info_def Let_def split: option.splits)

lemma image_step_size:
  "buffer_size (s_images (snd (image_http_event_handler m i e s)) i)
     \<le> buffer_size (s_images s i) + data_len e"
  by (cases e) (auto simp: set_image_buffer_info_def Let_def size_t_add_def split: option.splits
        intro: order_trans [OF mod_less_eq_dividend])

lemma image_deliver_not_valid:
  "\<not> is_valid (s_images s i) \<Longrightarrow>
   \<not> is_valid (s_images (deliver (image_http_event_handler m i) evs s) i)"
  by (induction evs arbitrary: s)
     (simp_all add: image_step_not_valid del: image_http_event_handler.simps)

lemma image_deliver_size:
  "buffer_size (s_images (deliver (image_http_event_handler m i) evs s) i)
     \<le> buffer_size (s_images s i) + body_length evs"
proof (induction evs arbitrary: s)
  case Nil
  then show ?case by (simp add: body_length_def)
next
  case (Cons e evs)
  have "buffer_size (s_images (deliver (image_http_event_handler m i) evs
           (snd (image_http_event_handler m i e s))) i)
        \<le> buffer_size (s_images (snd (image_http_event_handler m i e s)) i) + body_length evs"
    by (rule Cons.IH)
  also have "\<dots> \<le> buffer_size (s_images s i) + data_len e + body_length evs"
    using image_step_size [of m i e s] by simp
  finally show ?case by (simp add: body_length_def del: image_http_event_handler.simps)
qed

text \<open>
  When the exchange of an image download ends without error and with status 200, and the
  body has fewer than 100 bytes, \<^verbatim>\<open>http_download_image\<close> returns
  \<^verbatim>\<open>ESP_FAIL\<close> and the slot is not marked valid. The slot index is in range, the
  slot has a URL and the request body could be allocated, as they are when the exchange
  takes place.
\<close>

lemma short_image_is_refused:
  assumes "image_index < MAX_IMAGES" and "image_urls s image_index = Some url"
    and "malloc_ok (post_data_len url + 1)"
    and "perform_err x = ESP_OK" and "status_code x = 200"
    and "body_length (events x) < 100"
  shows "\<exists>s'. http_download_image malloc_ok image_index x s = Some (ESP_FAIL, s')
             \<and> \<not> is_valid (s_images s' image_index)"
proof -
  let ?s1 = "reset_image_buffer image_index s"
  let ?s2 = "deliver (image_http_event_handler malloc_ok image_index) (events x) ?s1"
  have r: "\<not> is_valid (s_images ?s1 image_index)" "buffer_size (s_images ?s1 image_index) = 0"
    "image_urls ?s1 image_index = Some url"
    using assms(1,2) by (simp_all add: reset_image_buffer_def)
  have v: "\<not> is_valid (s_images ?s2 image_index)"
    using r(1) by (rule image_deliver_not_valid)
  have "buffer_size (s_images ?s2 image_index) \<le> 0 + body_length (events x)"
    using image_deliver_size [of malloc_ok image_index "events x" ?s1] r(2) by simp
  then have sz: "buffer_size (s_images ?s2 image_index) < 100" using assms(6) by simp
  show ?thesis
    using assms(1,3,4,5) r(3) v sz
    by (simp add: http_download_image_def Let_def del: image_http_event_handler.simps)
qed

lemma short_image_is_refused_example:
  "\<exists>s'. http_download_image (\<lambda>n. True) 0 short_exchange one_url_state = Some (ESP_FAIL, s')
        \<and> \<not> is_valid (s_images s' 0)"
  using short_image_is_refused
          [of 0 one_url_state "''http://a/1.png''" "\<lambda>n. True" short_exchange]
  by (simp add: MAX_IMAGES_def one_url_state_def short_exchange_def body_length_def)

text \<open>
  The feed download accepts the same response: its only requirement on the body is that
  it is not empty.
\<close>

lemma feed_download_accepts_short_body:
  "fst (http_download_xml_feed (\<lambda>n. True) (Some u) result short_exchange) = ESP_OK"
  by (simp add: http_download_xml_feed_def short_exchange_def atoi_50 content_length_key
        size_t_of_int_def size_t_add_def memcpy_at_def Let_def)

lemmas download_eval =
  http_download_image_def one_pixel_exchange_def two_url_state_def two_exchanges_def
  app_main_init_def empty_slot_def reset_image_buffer_def set_image_buffer_info_def
  MAX_IMAGES_def atoi_14 atoi_112 content_length_key size_t_of_int_def size_t_add_def
  memcpy_at_def Let_def one_pixel_container_def five_by_ten_container_def

text \<open>
  C10. The claim: an image download whose body has fewer than 100 bytes fails and leaves
  the slot invalid, so that a container that small never becomes the image of a slot. The
  download does return \<^verbatim>\<open>ESP_FAIL\<close> with the flag cleared
  (\<open>short_image_is_refused\<close>), but it leaves the refused bytes in the buffer of the
  slot, and the refresh task decodes every slot that has a buffer with data as soon as
  one download of the cycle succeeded. In a refresh of two images whose responses are a
  container of 112 bytes and one of 14 bytes, the first download succeeds, the second is
  refused, and at the end of the cycle slot 1 is valid and holds the container of 14
  bytes.
\<close>

theorem refused_image_becomes_valid:
  "\<exists>s0 s1 r s'.
      http_download_image (\<lambda>n. True) 0 (two_exchanges 0) two_url_state = Some (ESP_OK, s0)
    \<and> http_download_image (\<lambda>n. True) 1 (two_exchanges 1) s0 = Some (ESP_FAIL, s1)
    \<and> \<not> is_valid (s_images s1 1)
    \<and> update_image_task_cycle (\<lambda>n. True) 1700000000 two_exchanges two_url_state = Some (r, s')
    \<and> is_valid (s_images s' 1)
    \<and> buffer (s_images s' 1) = Some one_pixel_container
    \<and> buffer_size (s_images s' 1) = 14"
  by (simp add: download_eval update_image_task_cycle_def http_download_all_images_def upt_rec
        process_downloaded_image_def read_header_def u16_le_def cf_of_code_def put_slot_def
        get_next_valid_image_def images_to_check_def get_next_valid_image_loop.simps)

subsection \<open>The image decoder\<close>

text \<open>
  C4. A slot whose buffer holds a container with any magic byte, any colour format code,
  width \<open>w\<close> and height \<open>h\<close> between 1 and 4096 (bytes 4 to 7, little-endian),
  and exactly \<open>w * h * bpp + 12\<close> bytes, where \<open>bpp\<close> follows the fixed table
  with 2 for every unknown code, is decoded: the result is \<^verbatim>\<open>ESP_OK\<close>, the slot
  is marked valid, its descriptor has the header's width and height and the format of
  the table, the payload starts at offset 12 and has \<open>w * h * bpp\<close> bytes, and the
  time stamp is set. The buffer, the other slots and the other globals stay as they
  were.
\<close>

theorem valid_container_decodes:
  assumes "image_index < MAX_IMAGES"
    and "buffer (s_images s image_index) = Some mem"
    and "buffer_size (s_images s image_index) = length mem"
    and "w = unat (mem ! 4) + 256 * unat (mem ! 5)"
    and "h = unat (mem ! 6) + 256 * unat (mem ! 7)"
    and "bpp = (if mem ! 1 = 0x12 then 2 else if mem ! 1 = 0x0F then 3
                else if mem ! 1 = 0x10 \<or> mem ! 1 = 0x11 then 4
                else if mem ! 1 = 0x14 \<or> mem ! 1 = 0x13 then 3
                else if mem ! 1 = 0x06 then 1 else 2)"
    and "0 < w" and "w \<le> 4096" and "0 < h" and "h \<le> 4096"
    and "length mem = w * h * bpp + 12"
  shows "\<exists>s'. process_downloaded_image now image_index s = Some (ESP_OK, s')
           \<and> is_valid (s_images s' image_index)
           \<and> header_w (img_dsc (s_images s' image_index)) = w
           \<and> header_h (img_dsc (s_images s' image_index)) = h
           \<and> header_cf (img_dsc (s_images s' image_index)) =
                (if mem ! 1 = 0x12 then LV_COLOR_FORMAT_RGB565
                 else if mem ! 1 = 0x0F then LV_COLOR_FORMAT_RGB888
                 else if mem ! 1 = 0x10 then LV_COLOR_FORMAT_ARGB8888
                 else if mem ! 1 = 0x14 then LV_COLOR_FORMAT_RGB565A8
                 else if mem ! 1 = 0x13 then LV_COLOR_FORMAT_ARGB8565
                 else if mem ! 1 = 0x11 then LV_COLOR_FORMAT_XRGB8888
                 else if mem ! 1 = 0x06 then LV_COLOR_FORMAT_L8
                 else LV_COLOR_FORMAT_RGB565)
           \<and> data (img_dsc (s_images s' image_index)) = Some 12
           \<and> data_size (img_dsc (s_images s' image_index)) = w * h * bpp
           \<and> download_timestamp (s_images s' image_index) = now
           \<and> buffer (s_images s' image_index) = Some mem
           \<and> buffer_size (s_images s' image_index) = length mem
           \<and> buffer_allocated (s_images s' image_index) = buffer_allocated (s_images s image_index)
           \<and> (\<forall>j. j \<noteq> image_index \<longrightarrow> s_images s' j = s_images s j)
           \<and> s_current_image_index s' = s_current_image_index s
           \<and> active_image_count s' = active_image_count s
           \<and> image_urls s' = image_urls s"
proof -
  have len: "12 \<le> length mem" using assms(11) by simp
  then have hdr: "read_header mem =
      Some \<lparr>magic = mem ! 0, color_format = mem ! 1, flags = u16_le (mem ! 2) (mem ! 3),
            width = w, height = h, stride = u16_le (mem ! 8) (mem ! 9),
            reserved = u16_le (mem ! 10) (mem ! 11)\<rparr>"
    using assms(4,5) by (simp add: read_header_def u16_le_def)
  have bpp: "bytes_per_pixel (cf_of_code (mem ! 1)) = bpp"
    using assms(6) by (simp add: cf_of_code_def)
  have sz: "buffer_size (s_images s image_index)
              = w * h * bytes_per_pixel (cf_of_code (mem ! 1)) + 12"
    using assms(3,11) bpp by simp
  let ?s' = "put_slot image_index
               ((s_images s image_index)
                  \<lparr>img_dsc := (img_dsc (s_images s image_index))
                      \<lparr>header_w := w, header_h := h, header_cf := cf_of_code (mem ! 1),
                       data := Some 12,
                       data_size := w * h * bytes_per_pixel (cf_of_code (mem ! 1))\<rparr>,
                   is_valid := True, download_timestamp := now\<rparr>) s"
  have run: "process_downloaded_image now image_index s = Some (ESP_OK, ?s')"
    using assms(1,2,7,8,9,10) hdr sz
    by (simp add: process_downloaded_image_def Let_def)
  have cf: "cf_of_code (mem ! 1) =
                (if mem ! 1 = 0x12 then LV_COLOR_FORMAT_RGB565
                 else if mem ! 1 = 0x0F then LV_COLOR_FORMAT_RGB888
                 else if mem ! 1 = 0x10 then LV_COLOR_FORMAT_ARGB8888
                 else if mem ! 1 = 0x14 then LV_COLOR_FORMAT_RGB565A8
                 else if mem ! 1 = 0x13 then LV_COLOR_FORMAT_ARGB8565
                 else if mem ! 1 = 0x11 then LV_COLOR_FORMAT_XRGB8888
                 else if mem ! 1 = 0x06 then LV_COLOR_FORMAT_L8
                 else LV_COLOR_FORMAT_RGB565)"
    by (simp add: cf_of_code_def)
  have fields: "is_valid (s_images ?s' image_index)"
    "header_w (img_dsc (s_images ?s' image_index)) = w"
    "header_h (img_dsc (s_images ?s' image_index)) = h"
    "header_cf (img_dsc (s_images ?s' image_index)) = cf_of_code (mem ! 1)"
    "data (img_dsc (s_images ?s' image_index)) = Some 12"
    "data_size (img_dsc (s_images ?s' image_index)) = w * h * bpp"
    "download_timestamp (s_images ?s' image_index) = now"
    "buffer (s_images ?s' image_index) = Some mem"
    "buffer_size (s_images ?s' image_index) = length mem"
    "buffer_allocated (s_images ?s' image_index) = buffer_allocated (s_images s image_index)"
    using assms(2,3) bpp by (simp_all add: put_slot_def)
  have rest: "\<forall>j. j \<noteq> image_index \<longrightarrow> s_images ?s' j = s_images s j"
    "s_current_image_index ?s' = s_current_image_index s"
    "active_image_count ?s' = active_image_count s"
    "image_urls ?s' = image_urls s"
    by (simp_all add: put_slot_def)
  have cf': "header_cf (img_dsc (s_images ?s' image_index)) =
                (if mem ! 1 = 0x12 then LV_COLOR_FORMAT_RGB565
                 else if mem ! 1 = 0x0F then LV_COLOR_FORMAT_RGB888
                 else if mem ! 1 = 0x10 then LV_COLOR_FORMAT_ARGB8888
                 else if mem ! 1 = 0x14 then LV_COLOR_FORMAT_RGB565A8
                 else if mem ! 1 = 0x13 then LV_COLOR_FORMAT_ARGB8565
                 else if mem ! 1 = 0x11 then LV_COLOR_FORMAT_XRGB8888
                 else if mem ! 1 = 0x06 then LV_COLOR_FORMAT_L8
                 else LV_COLOR_FORMAT_RGB565)"
    using fields(4) cf by (rule trans)
  show ?thesis
    by (intro exI [of _ ?s'] conjI)
       (rule run fields(1,2,3) cf' fields(5,6,7,8,9,10) rest)+
qed

theorem valid_container_decodes_witness:
  "\<exists>s'. process_downloaded_image 1700000000 0 one_pixel_state = Some (ESP_OK, s')
        \<and> is_valid (s_images s' 0)
        \<and> header_w (img_dsc (s_images s' 0)) = 1
        \<and> header_h (img_dsc (s_images s' 0)) = 1
        \<and> header_cf (img_dsc (s_images s' 0)) = LV_COLOR_FORMAT_RGB565
        \<and> data (img_dsc (s_images s' 0)) = Some 12
        \<and> data_size (img_dsc (s_images s' 0)) = 2
        \<and> download_timestamp (s_images s' 0) = 1700000000
        \<and> buffer (s_images s' 0) = Some one_pixel_container
        \<and> s_images s' 1 = s_images one_pixel_state 1"
  using valid_container_decodes [of 0 one_pixel_state one_pixel_container 1 1 2 1700000000]
  by (simp add: MAX_IMAGES_def one_pixel_state_def one_pixel_container_def) blast

text \<open>
  C5. A slot whose buffer has fewer than 12 bytes is refused with \<^verbatim>\<open>ESP_FAIL\<close>,
  the only failure value the function has. The state is returned as it was, so the slot
  is not marked valid, and the result is not \<open>None\<close> whatever the buffer holds (also
  when it holds nothing): no byte of the buffer is read.
\<close>

theorem short_buffer_is_refused:
  assumes "buffer_size (s_images s image_index) < 12"
  shows "process_downloaded_image now image_index s = Some (ESP_FAIL, s)"
  using assms by (simp add: process_downloaded_image_def Let_def split: option.splits)

theorem short_buffer_is_refused_witness:
  "process_downloaded_image 1700000000 0
     (put_slot 0 (empty_slot\<lparr>buffer := Some [0x19, 0x12, 0, 0, 1, 0, 1, 0, 2, 0, 0], buffer_size := 11,
                              buffer_allocated := 1035\<rparr>) app_main_init)
   = Some (ESP_FAIL,
       put_slot 0 (empty_slot\<lparr>buffer := Some [0x19, 0x12, 0, 0, 1, 0, 1, 0, 2, 0, 0], buffer_size := 11,
                                buffer_allocated := 1035\<rparr>) app_main_init)"
  using short_buffer_is_refused
          [of "put_slot 0 (empty_slot\<lparr>buffer := Some [0x19, 0x12, 0, 0, 1, 0, 1, 0, 2, 0, 0], buffer_size := 11,
                                       buffer_allocated := 1035\<rparr>) app_main_init" 0 1700000000]
  by (simp add: put_slot_def)

subsection \<open>The carousel\<close>

lemma loop_all_invalid:
  assumes inv: "\<forall>i<MAX_IMAGES. \<not> is_valid (imgs i)" and n: "n \<le> MAX_IMAGES"
  shows "cur < MAX_IMAGES \<Longrightarrow> attempts \<le> n \<Longrightarrow>
         \<exists>cur'. cur' < MAX_IMAGES \<and>
           get_next_valid_image_loop imgs n cur attempts = Some (Error_image, cur', n)"
proof (induction "n - attempts" arbitrary: cur attempts)
  case 0
  then have "attempts = n" by simp
  then show ?case using "0.prems" by (subst get_next_valid_image_loop.simps) simp
next
  case (Suc d)
  then have lt: "attempts < n" by simp
  then have "0 < n" by simp
  then have next_lt: "(cur + 1) mod n < MAX_IMAGES"
    using n by (meson mod_less_divisor less_le_trans)
  have d: "d = n - (attempts + 1)" using Suc.hyps(2) by simp
  have "attempts + 1 \<le> n" using lt by simp
  from Suc.hyps(1) [OF d next_lt this]
  obtain cur' where c: "cur' < MAX_IMAGES"
    "get_next_valid_image_loop imgs n ((cur + 1) mod n) (attempts + 1) = Some (Error_image, cur', n)"
    by blast
  have "\<not> is_valid (imgs cur)" using inv Suc.prems(1) by simp
  then have "get_next_valid_image_loop imgs n cur attempts = Some (Error_image, cur', n)"
    using lt Suc.prems(1) c(2) by (subst get_next_valid_image_loop.simps) simp
  with c(1) show ?case by blast
qed

text \<open>
  C7. With no valid slot, \<^verbatim>\<open>get_next_valid_image\<close> returns: the result is the
  bundled error image, and the final value of \<^verbatim>\<open>attempts\<close> (one per inspected
  slot) is the active count, or \<open>MAX_IMAGES\<close> when the active count is 0. The cursor
  is an index of the array and the active count is at most \<open>MAX_IMAGES\<close>, as the
  firmware keeps them; the cursor is an index of the array afterwards too.
\<close>

theorem no_valid_slot_gives_error_image:
  assumes "s_current_image_index s < MAX_IMAGES" and "active_image_count s \<le> MAX_IMAGES"
    and "\<forall>i<MAX_IMAGES. \<not> is_valid (s_images s i)"
  shows "\<exists>cur. cur < MAX_IMAGES \<and>
           get_next_valid_image s =
             Some (Error_image,
                   (if active_image_count s = 0 then MAX_IMAGES else active_image_count s),
                   s\<lparr>s_current_image_index := cur\<rparr>)"
proof -
  have n: "images_to_check s \<le> MAX_IMAGES" using assms(2) by (simp add: images_to_check_def)
  from loop_all_invalid [OF assms(3) n assms(1), of 0]
  obtain cur where "cur < MAX_IMAGES"
    "get_next_valid_image_loop (s_images s) (images_to_check s) (s_current_image_index s) 0
       = Some (Error_image, cur, images_to_check s)" by auto
  then show ?thesis
    by (auto simp: get_next_valid_image_def images_to_check_def)
qed

theorem no_valid_slot_gives_error_image_witness:
  "\<exists>cur. cur < MAX_IMAGES \<and>
     get_next_valid_image app_main_init =
       Some (Error_image, MAX_IMAGES, app_main_init\<lparr>s_current_image_index := cur\<rparr>)"
  using no_valid_slot_gives_error_image [of app_main_init]
  by (simp add: app_main_init_def empty_slot_def MAX_IMAGES_def)

lemma loop_finds_k:
  assumes k: "k < n" and n: "n \<le> MAX_IMAGES" and vk: "is_valid (imgs k)"
    and others: "\<forall>i<n. i \<noteq> k \<longrightarrow> \<not> is_valid (imgs i)"
  shows "cur < n \<Longrightarrow> d = (if cur \<le> k then k - cur else n - cur + k) \<Longrightarrow> attempts + d < n \<Longrightarrow>
         get_next_valid_image_loop imgs n cur attempts = Some (Slot_img_dsc k, k, attempts + d)"
proof (induction d arbitrary: cur attempts)
  case 0
  then have "cur = k" by (simp split: if_splits)
  then show ?case using "0.prems" vk k n by (subst get_next_valid_image_loop.simps) simp
next
  case (Suc d)
  have ne: "cur \<noteq> k" using Suc.prems(2) by (auto split: if_splits)
  then have nv: "\<not> is_valid (imgs cur)" using others Suc.prems(1) by simp
  have cm: "cur < MAX_IMAGES" using Suc.prems(1) n by simp
  have lt: "attempts < n" using Suc.prems(3) by simp
  let ?c = "(cur + 1) mod n"
  have c1: "?c < n" using Suc.prems(1) by simp
  have c2: "d = (if ?c \<le> k then k - ?c else n - ?c + k)"
  proof (cases "cur + 1 < n")
    case True
    then show ?thesis using Suc.prems(2) ne by (auto split: if_splits)
  next
    case False
    then have "cur + 1 = n" using Suc.prems(1) by simp
    then show ?thesis using Suc.prems(2) ne k by (auto split: if_splits)
  qed
  have c3: "(attempts + 1) + d < n" using Suc.prems(3) by simp
  have "get_next_valid_image_loop imgs n ?c (attempts + 1)
          = Some (Slot_img_dsc k, k, attempts + 1 + d)"
    by (rule Suc.IH [OF c1 c2 c3])
  then show ?case using nv cm lt
    by (subst get_next_valid_image_loop.simps) simp
qed

text \<open>
  A round of the display task leaves the cursor inside the active range, so the cursor
  is only outside of it after a refresh has made the active count smaller.
\<close>

lemma display_round_cursor_in_range:
  assumes "active_image_count s \<le> MAX_IMAGES" and "display_image_task_round s = Some (r, s')"
  shows "s_current_image_index s' < images_to_check s' \<and> images_to_check s' \<le> MAX_IMAGES"
proof -
  from assms(2) obtain attempts s1 where g: "get_next_valid_image s = Some (r, attempts, s1)"
    and s': "s' = s1\<lparr>s_current_image_index :=
                     (s_current_image_index s1 + 1) mod images_to_check s1\<rparr>"
    by (auto simp: display_image_task_round_def images_to_check_def Let_def
          split: option.splits)
  from g have a: "active_image_count s1 = active_image_count s"
    by (auto simp: get_next_valid_image_def split: option.splits)
  have p: "0 < images_to_check s1" by (simp add: images_to_check_def MAX_IMAGES_def)
  have e: "images_to_check s' = images_to_check s1" using s' by (simp add: images_to_check_def)
  have "(s_current_image_index s1 + 1) mod images_to_check s1 < images_to_check s1"
    using p by (rule mod_less_divisor)
  moreover have "images_to_check s1 \<le> MAX_IMAGES"
    using a assms(1) by (simp add: images_to_check_def)
  ultimately show ?thesis using s' e by simp
qed

text \<open>
  C6, as the code has it. The loop walks the active range only (the indices below the
  active count, or below \<open>MAX_IMAGES\<close> when the active count is 0), starting at the
  cursor. When slot \<open>k\<close> of the active range is the only valid slot of that range and
  the cursor lies in the active range, the result is the descriptor of slot \<open>k\<close> and
  the cursor is left at \<open>k\<close>.
\<close>

theorem single_valid_slot_is_found:
  assumes "active_image_count s \<le> MAX_IMAGES"
    and "k < images_to_check s" and "s_current_image_index s < images_to_check s"
    and "is_valid (s_images s k)"
    and "\<forall>i<images_to_check s. i \<noteq> k \<longrightarrow> \<not> is_valid (s_images s i)"
  shows "\<exists>attempts. get_next_valid_image s =
            Some (Slot_img_dsc k, attempts, s\<lparr>s_current_image_index := k\<rparr>)"
proof -
  let ?n = "images_to_check s" and ?cur = "s_current_image_index s"
  let ?d = "(if ?cur \<le> k then k - ?cur else ?n - ?cur + k)"
  have n: "?n \<le> MAX_IMAGES" using assms(1) by (simp add: images_to_check_def)
  have d: "0 + ?d < ?n" using assms(2,3) by auto
  have "get_next_valid_image_loop (s_images s) ?n ?cur 0 = Some (Slot_img_dsc k, k, 0 + ?d)"
    by (rule loop_finds_k [OF assms(2) n assms(4) assms(5) assms(3) refl d])
  then show ?thesis by (simp add: get_next_valid_image_def)
qed

theorem single_valid_slot_is_found_witness:
  "\<exists>attempts. get_next_valid_image (carousel_state 3 2 1) =
     Some (Slot_img_dsc 1, attempts, carousel_state 3 1 1)"
  using single_valid_slot_is_found [of "carousel_state 3 2 1" 1]
  by (simp add: images_to_check_def carousel_state_def only_slot_valid_def app_main_init_def
        empty_slot_def MAX_IMAGES_def)

text \<open>
  The claim as stated (slot \<open>k\<close> is returned whenever it is the only valid slot) fails
  for a valid slot outside the active range, which a refresh with fewer images than the
  one before leaves behind: with three active images, the cursor at 0 and slot 5 the only
  valid slot, the three active slots are inspected and the error image is returned.
\<close>

theorem valid_slot_outside_active_range_is_missed:
  "filter (\<lambda>i. is_valid (s_images (carousel_state 3 0 5) i)) [0..<MAX_IMAGES] = [5]
   \<and> get_next_valid_image (carousel_state 3 0 5) = Some (Error_image, 3, carousel_state 3 0 5)"
  by (simp add: get_next_valid_image_def images_to_check_def carousel_state_def
        only_slot_valid_def app_main_init_def empty_slot_def MAX_IMAGES_def upt_rec
        get_next_valid_image_loop.simps)

text \<open>
  A cursor left beyond the active range by a larger previous cycle: the loop inspects
  slot 7, then slots 2 and 0, and gives up with the cursor at the valid slot 1.
\<close>

lemma stale_cursor_misses_valid_slot:
  "filter (\<lambda>i. is_valid (s_images (carousel_state 3 7 1) i)) [0..<MAX_IMAGES] = [1]
   \<and> get_next_valid_image (carousel_state 3 7 1) = Some (Error_image, 3, carousel_state 3 1 1)"
  by (simp add: get_next_valid_image_def images_to_check_def carousel_state_def
        only_slot_valid_def app_main_init_def empty_slot_def MAX_IMAGES_def upt_rec
        get_next_valid_image_loop.simps)

subsection \<open>The backlight timer\<close>

text \<open>
  C9, as the code has it. In a build with a touch screen or with the PIR timer, an expiry
  that finds the backlight on turns it off when both takes of the backlight mutex succeed
  (the one that reads the flag and the one that writes it); otherwise the callback leaves
  the state as it is. In a build with neither, the callback never changes the flag or the
  GPIO level, and it resets the timer whenever it reads the flag as on.
\<close>

theorem backlight_timer_expiry:
  "(ENABLE_TOUCHSCREEN cfg \<or> ENABLE_PIR_BACKLIGHT_TIMER cfg \<longrightarrow>
      (backlight_on b \<and> taken_get \<and> taken_set \<longrightarrow>
         backlight_timer_callback cfg taken_get taken_set b
           = b\<lparr>bk_light_level_on := False, backlight_on := False\<rparr>)
      \<and> (\<not> (backlight_on b \<and> taken_get \<and> taken_set) \<longrightarrow>
         backlight_timer_callback cfg taken_get taken_set b = b))
   \<and> (\<not> (ENABLE_TOUCHSCREEN cfg \<or> ENABLE_PIR_BACKLIGHT_TIMER cfg) \<longrightarrow>
        backlight_on (backlight_timer_callback cfg taken_get taken_set b) = backlight_on b
        \<and> bk_light_level_on (backlight_timer_callback cfg taken_get taken_set b)
            = bk_light_level_on b
        \<and> timer_resets (backlight_timer_callback cfg taken_get taken_set b)
            = (if backlight_on b \<and> taken_get then timer_resets b + 1 else timer_resets b))"
  by (auto simp: backlight_timer_callback_def get_backlight_state_def set_backlight_state_def)

theorem backlight_timer_expiry_witness:
  "backlight_timer_callback touch_build True True backlight_lit
     = backlight_lit\<lparr>bk_light_level_on := False, backlight_on := False\<rparr>
   \<and> backlight_on (backlight_timer_callback no_input_build True True backlight_lit)
   \<and> bk_light_level_on (backlight_timer_callback no_input_build True True backlight_lit)
   \<and> timer_resets (backlight_timer_callback no_input_build True True backlight_lit) = 1"
  using backlight_timer_expiry [of touch_build backlight_lit True True]
        backlight_timer_expiry [of no_input_build backlight_lit True True]
  by (simp add: touch_build_def no_input_build_def backlight_lit_def ENABLE_TOUCHSCREEN_def
        ENABLE_PIR_BACKLIGHT_TIMER_def)

text \<open>
  The claim as stated (with an activity input, expiry while the backlight is on turns it
  off) fails when the mutex is not obtained within its 10 ms: the callback reads the
  state as off and the backlight stays on.
\<close>

theorem backlight_stays_on_without_mutex:
  "backlight_on (backlight_timer_callback touch_build False True backlight_lit)
   \<and> bk_light_level_on (backlight_timer_callback touch_build False True backlight_lit)"
  by (simp add: backlight_timer_callback_def get_backlight_state_def touch_build_def
        backlight_lit_def)

subsection \<open>The feed parser\<close>

lemma start_elem_ok:
  "\<forall>n. malloc_ok n \<Longrightarrow> ctx_ok c \<Longrightarrow> ctx_ok (start_elem malloc_ok el c)"
  by (auto simp: ctx_ok_def start_elem_def Let_def split: option.splits)

lemma char_data_ok:
  "ctx_ok c \<Longrightarrow> ctx_ok (char_data malloc_ok s c)"
  by (auto simp: ctx_ok_def char_data_def Let_def split: option.splits)

lemma strstr_empty_title: "strstr [] ''Graphics'' = None"
  by (simp add: strstr_def c_str_def)

lemma add_url_ok:
  "ctx_ok c \<Longrightarrow> \<exists>c'. add_url_to_array malloc_ok url c = Some c' \<and> ctx_ok c'"
  by (auto simp: ctx_ok_def add_url_to_array_def Let_def split: option.splits)

text \<open>The branches of \<^verbatim>\<open>end_elem\<close>, one lemma each.\<close>

lemma end_elem_other:
  "el \<noteq> ''item'' \<Longrightarrow>
   end_elem malloc_ok el c =
     Some (if el = ''title'' then c\<lparr>in_title := False\<rparr>
           else if el = ''description'' then c\<lparr>in_description := False\<rparr> else c)"
  by (simp add: end_elem_def)

lemma end_elem_no_graphics:
  "strstr (title c) ''Graphics'' = None \<Longrightarrow>
   end_elem malloc_ok ''item'' c = Some (c\<lparr>in_item := False\<rparr>)"
  by (simp add: end_elem_def)

lemma end_elem_no_src:
  assumes "strstr (title c) ''Graphics'' \<noteq> None" and "description c = Some desc"
    and "strstr desc (''src='' @ [CHR 0x22]) = None"
  shows "end_elem malloc_ok ''item'' c =
     Some (case strstr desc (''href='' @ [CHR 0x22]) of
             None \<Rightarrow> c\<lparr>in_item := False\<rparr>
           | Some i \<Rightarrow>
               (case strchr (drop (i + 6) (c_str desc)) (CHR 0x22) of
                  None \<Rightarrow> c\<lparr>in_item := False\<rparr>
                | Some j \<Rightarrow>
                    c\<lparr>stdout := stdout c @ [''Storm Cone Page URL: ''
                                              @ take j (drop (i + 6) (c_str desc))],
                      in_item := False\<rparr>))"
  using assms by (simp add: end_elem_def split: option.split)

lemma end_elem_src_unterminated:
  assumes "strstr (title c) ''Graphics'' \<noteq> None" and "description c = Some desc"
    and "strstr desc (''src='' @ [CHR 0x22]) = Some i"
    and "strchr (drop (i + 5) (c_str desc)) (CHR 0x22) = None"
  shows "end_elem malloc_ok ''item'' c = Some (c\<lparr>in_item := False\<rparr>)"
  using assms by (simp add: end_elem_def)

lemma end_elem_src:
  assumes "strstr (title c) ''Graphics'' \<noteq> None" and "description c = Some desc"
    and "strstr desc (''src='' @ [CHR 0x22]) = Some i"
    and "strchr (drop (i + 5) (c_str desc)) (CHR 0x22) = Some j"
  shows "end_elem malloc_ok ''item'' c =
           (let url = take j (drop (i + 5) (c_str desc));
                c1 = c\<lparr>stdout := stdout c @ [''Storm Graphics URL: '' @ url]\<rparr>;
                c2 = (if found_url c1 = None \<and> malloc_ok (length url + 1)
                      then c1\<lparr>found_url := Some url\<rparr> else c1)
            in if all_urls c2 \<noteq> None \<or> url_capacity c2 > 0
               then map_option (\<lambda>c3. c3\<lparr>in_item := False\<rparr>) (add_url_to_array malloc_ok url c2)
               else Some (c2\<lparr>in_item := False\<rparr>))"
  using assms by (simp add: end_elem_def)

lemma end_elem_ok:
  assumes "ctx_ok c"
  shows "\<exists>c'. end_elem malloc_ok el c = Some c' \<and> ctx_ok c'"
proof (cases "el = ''item''")
  case False
  then show ?thesis using assms by (auto simp: end_elem_other ctx_ok_def split: option.splits)
next
  case item: True
  show ?thesis
  proof (cases "strstr (title c) ''Graphics''")
    case None
    then show ?thesis using assms item
      by (auto simp: end_elem_no_graphics ctx_ok_def split: option.splits)
  next
    case (Some g)
    then have g: "strstr (title c) ''Graphics'' \<noteq> None" by simp
    then have "title c \<noteq> []" using strstr_empty_title by auto
    then obtain desc where d: "description c = Some desc"
      using assms by (auto simp: ctx_ok_def split: option.splits)
    show ?thesis
    proof (cases "strstr desc (''src='' @ [CHR 0x22])")
      case None
      show ?thesis
        unfolding item end_elem_no_src [OF g d None]
        using assms d by (auto simp: ctx_ok_def split: option.splits)
    next
      case src: (Some i)
      show ?thesis
      proof (cases "strchr (drop (i + 5) (c_str desc)) (CHR 0x22)")
        case None
        show ?thesis
          unfolding item end_elem_src_unterminated [OF g d src None]
          using assms d by (auto simp: ctx_ok_def split: option.splits)
      next
        case (Some j)
        let ?url = "take j (drop (i + 5) (c_str desc))"
        let ?c1 = "c\<lparr>stdout := stdout c @ [''Storm Graphics URL: '' @ ?url]\<rparr>"
        let ?c2 = "(if found_url ?c1 = None \<and> malloc_ok (length ?url + 1)
                    then ?c1\<lparr>found_url := Some ?url\<rparr> else ?c1)"
        have ok2: "ctx_ok ?c2" using assms d by (simp add: ctx_ok_def)
        then obtain c3 where c3: "add_url_to_array malloc_ok ?url ?c2 = Some c3" "ctx_ok c3"
          using add_url_ok by blast
        have au: "all_urls ?c2 \<noteq> None" using assms by (simp add: ctx_ok_def)
        have "end_elem malloc_ok ''item'' c = Some (c3\<lparr>in_item := False\<rparr>)"
          unfolding end_elem_src [OF g d src Some] Let_def using c3(1) au by simp
        moreover have "ctx_ok (c3\<lparr>in_item := False\<rparr>)"
          using c3(2) by (auto simp: ctx_ok_def split: option.splits)
        ultimately show ?thesis using item by blast
      qed
    qed
  qed
qed

text \<open>When every allocation succeeds, expat's calls run through without a fault.\<close>

lemma XML_Parse_ok:
  assumes m: "\<forall>n. malloc_ok n"
  shows "ctx_ok c \<Longrightarrow> \<exists>c'. XML_Parse malloc_ok evs c = Some c' \<and> ctx_ok c'"
proof (induction evs arbitrary: c)
  case Nil
  then show ?case by simp
next
  case (Cons e evs)
  show ?case
  proof (cases e)
    case (StartElement el)
    then show ?thesis using Cons.IH [OF start_elem_ok [OF m Cons.prems]] by simp
  next
    case (EndElement el)
    from end_elem_ok [OF Cons.prems] obtain c1
      where "end_elem malloc_ok el c = Some c1" "ctx_ok c1" by blast
    then show ?thesis using EndElement Cons.IH [of c1] by simp
  next
    case (CharacterData s)
    then show ?thesis using Cons.IH [OF char_data_ok [OF Cons.prems]] by simp
  qed
qed

lemmas xml_eval =
  xml_parse_all_cone_image_urls_def ctx_zero_def start_elem_def end_elem_def char_data_def
  add_url_to_array_def strstr_def strchr_def c_str_def Let_def item_events_def feed_of_def

text \<open>
  C2, as the code has it. When \<^verbatim>\<open>XML_Parse\<close> reports an error,
  \<^verbatim>\<open>xml_parse_all_cone_image_urls\<close> frees the URLs collected so far, stores 0
  in \<^verbatim>\<open>*count\<close> and returns NULL: the caller gets no partial result.
\<close>

theorem parse_error_discards_all_urls:
  assumes "\<forall>n. malloc_ok n" and "\<not> status_ok run"
  shows "xml_parse_all_cone_image_urls malloc_ok run = Some (None, 0)"
proof -
  have "ctx_ok (ctx_zero\<lparr>url_capacity := 4, all_urls := Some []\<rparr>)"
    by (simp add: ctx_ok_def ctx_zero_def)
  from XML_Parse_ok [OF assms(1) this]
  obtain c' where
    "XML_Parse malloc_ok (callbacks run) (ctx_zero\<lparr>url_capacity := 4, all_urls := Some []\<rparr>)
       = Some c'"
    by blast
  then show ?thesis using assms by (simp add: xml_parse_all_cone_image_urls_def Let_def)
qed

theorem parse_error_discards_all_urls_witness:
  "xml_parse_all_cone_image_urls (\<lambda>n. True) truncated_feed = Some (None, 0)"
  using parse_error_discards_all_urls [of "\<lambda>n. True" truncated_feed]
  by (simp add: truncated_feed_def)

text \<open>
  The claim as stated (the URLs of the entries parsed before the error are returned)
  fails on the feed that breaks off inside its second item: the handlers have collected
  the URL of the first item when expat stops, and the caller receives NULL and count 0.
\<close>

theorem collected_url_is_not_returned:
  "map_option (\<lambda>c. (all_urls c, url_count c))
     (XML_Parse (\<lambda>n. True) (callbacks truncated_feed)
        (ctx_zero\<lparr>url_capacity := 4, all_urls := Some []\<rparr>))
     = Some (Some [''http://a/1.png''], 1)
   \<and> xml_parse_all_cone_image_urls (\<lambda>n. True) truncated_feed = Some (None, 0)"
  by (simp add: truncated_feed_def xml_eval)

subsection \<open>Extraction in document order\<close>

text \<open>The handlers on the calls of one item, when every allocation succeeds.\<close>

lemma start_elem_item:
  "\<forall>n. malloc_ok n \<Longrightarrow>
   start_elem malloc_ok ''item'' c =
     c\<lparr>in_item := True, title := [], description := Some [], description_size := 0,
       description_capacity := (if description c = None then 4096 else description_capacity c)\<rparr>"
  by (cases "description c") (simp_all add: start_elem_def Let_def)

lemma start_elem_title:
  "in_item c \<Longrightarrow> start_elem malloc_ok ''title'' c = c\<lparr>in_title := True\<rparr>"
  by (simp add: start_elem_def)

lemma start_elem_description:
  "in_item c \<Longrightarrow> start_elem malloc_ok ''description'' c = c\<lparr>in_description := True\<rparr>"
  by (simp add: start_elem_def)

lemma start_elem_outside:
  "el \<noteq> ''item'' \<Longrightarrow> \<not> in_item c \<Longrightarrow> start_elem malloc_ok el c = c"
  by (simp add: start_elem_def)

lemma char_data_title:
  "in_title c \<Longrightarrow> title c = [] \<Longrightarrow> char_data malloc_ok t c = c\<lparr>title := c_str (take 255 t)\<rparr>"
  by (simp add: char_data_def Let_def min_def)

lemma char_data_description:
  assumes "\<forall>n. malloc_ok n" and "\<not> in_title c" and "in_description c"
    and "description c = Some []" and "description_size c = 0"
  shows "\<exists>cap. char_data malloc_ok d c =
           c\<lparr>description := Some d, description_size := length d, description_capacity := cap\<rparr>"
proof (cases "length d + 1 > description_capacity c")
  case True
  then have "char_data malloc_ok d c =
           c\<lparr>description := Some d, description_size := length d,
             description_capacity := grow_capacity
                           (if description_capacity c = 0 then 4096
                            else description_capacity c * 2) (length d + 1)\<rparr>"
    using assms by (simp add: char_data_def Let_def)
  then show ?thesis by blast
next
  case False
  then have "char_data malloc_ok d c =
           c\<lparr>description := Some d, description_size := length d,
             description_capacity := description_capacity c\<rparr>"
    using assms by (simp add: char_data_def Let_def)
  then show ?thesis by blast
qed


lemma item_prefix_run:
  assumes m: "\<forall>n. malloc_ok n"
  shows "\<exists>c7. XML_Parse malloc_ok (item_events t d @ rest) c =
                XML_Parse malloc_ok (EndElement ''item'' # rest) c7
           \<and> title c7 = c_str (take 255 t) \<and> description c7 = Some d
           \<and> all_urls c7 = all_urls c \<and> url_count c7 = url_count c"
proof -
  let ?c1 = "start_elem malloc_ok ''item'' c"
  have c1: "in_item ?c1" "title ?c1 = []" "description ?c1 = Some []" "description_size ?c1 = 0"
    "all_urls ?c1 = all_urls c" "url_count ?c1 = url_count c"
    by (simp_all add: start_elem_item [OF m])
  let ?c2 = "?c1\<lparr>in_title := True\<rparr>"
  have e2: "start_elem malloc_ok ''title'' ?c1 = ?c2"
    using c1(1) by (rule start_elem_title)
  let ?c3 = "?c2\<lparr>title := c_str (take 255 t)\<rparr>"
  have e3: "char_data malloc_ok t ?c2 = ?c3"
    by (rule char_data_title) (simp_all add: c1)
  let ?c4 = "?c3\<lparr>in_title := False\<rparr>"
  have e4: "end_elem malloc_ok ''title'' ?c3 = Some ?c4"
    by (simp add: end_elem_other)
  let ?c5 = "?c4\<lparr>in_description := True\<rparr>"
  have e5: "start_elem malloc_ok ''description'' ?c4 = ?c5"
    by (rule start_elem_description) (simp add: c1)
  obtain cap where e6: "char_data malloc_ok d ?c5 =
      ?c5\<lparr>description := Some d, description_size := length d, description_capacity := cap\<rparr>"
    using char_data_description [OF m, of ?c5 d] c1 by auto
  let ?c6 = "?c5\<lparr>description := Some d, description_size := length d,
                 description_capacity := cap\<rparr>"
  have e7: "end_elem malloc_ok ''description'' ?c6 = Some (?c6\<lparr>in_description := False\<rparr>)"
    by (simp add: end_elem_other)
  have "XML_Parse malloc_ok (item_events t d @ rest) c =
        XML_Parse malloc_ok (EndElement ''item'' # rest) (?c6\<lparr>in_description := False\<rparr>)"
    unfolding item_events_def
    by (simp only: append_Cons append_Nil XML_Parse.simps e2 e3 e4 e5 e6 e7 option.case)
  moreover have "title (?c6\<lparr>in_description := False\<rparr>) = c_str (take 255 t)"
    "description (?c6\<lparr>in_description := False\<rparr>) = Some d"
    "all_urls (?c6\<lparr>in_description := False\<rparr>) = all_urls c"
    "url_count (?c6\<lparr>in_description := False\<rparr>) = url_count c"
    by (simp_all add: c1)
  ultimately show ?thesis by blast
qed

lemma add_url_result:
  assumes "\<forall>n. malloc_ok n" and "all_urls c = Some us" and "url_count c = length us"
  shows "\<exists>c'. add_url_to_array malloc_ok url c = Some c'
           \<and> all_urls c' = Some (us @ [url]) \<and> url_count c' = length us + 1"
  using assms by (auto simp: add_url_to_array_def Let_def)

lemma end_item_urls:
  assumes m: "\<forall>n. malloc_ok n" and au: "all_urls c = Some us" "url_count c = length us"
    and d: "description c = Some d" and t: "title c = c_str (take 255 t)"
  shows "\<exists>c'. end_elem malloc_ok ''item'' c = Some c'
           \<and> all_urls c' = Some (us @ item_url t d) \<and> url_count c' = length (us @ item_url t d)"
proof (cases "strstr (title c) ''Graphics''")
  case None
  then show ?thesis using au t by (simp add: end_elem_no_graphics item_url_def)
next
  case (Some g)
  then have g: "strstr (title c) ''Graphics'' \<noteq> None" by simp
  show ?thesis
  proof (cases "strstr d (''src='' @ [CHR 0x22])")
    case None
    show ?thesis
      unfolding end_elem_no_src [OF g d None]
      using au t g None by (simp add: item_url_def split: option.split)
  next
    case src: (Some i)
    show ?thesis
    proof (cases "strchr (drop (i + 5) (c_str d)) (CHR 0x22)")
      case None
      show ?thesis
        unfolding end_elem_src_unterminated [OF g d src None]
        using au t g src None by (simp add: item_url_def)
    next
      case (Some j)
      let ?url = "take j (drop (i + 5) (c_str d))"
      let ?c1 = "c\<lparr>stdout := stdout c @ [''Storm Graphics URL: '' @ ?url]\<rparr>"
      let ?c2 = "(if found_url ?c1 = None \<and> malloc_ok (length ?url + 1)
                  then ?c1\<lparr>found_url := Some ?url\<rparr> else ?c1)"
      have a2: "all_urls ?c2 = Some us" "url_count ?c2 = length us" using au by simp_all
      from add_url_result [OF m a2] obtain c3
        where c3: "add_url_to_array malloc_ok ?url ?c2 = Some c3"
          "all_urls c3 = Some (us @ [?url])" "url_count c3 = length us + 1" by blast
      have "end_elem malloc_ok ''item'' c = Some (c3\<lparr>in_item := False\<rparr>)"
        unfolding end_elem_src [OF g d src Some] Let_def using c3(1) a2(1) by simp
      moreover have "item_url t d = [?url]"
        using g t src Some by (simp add: item_url_def)
      ultimately show ?thesis using c3(2,3) by simp
    qed
  qed
qed

lemma item_run:
  assumes m: "\<forall>n. malloc_ok n" and au: "all_urls c = Some us" "url_count c = length us"
  shows "\<exists>c'. XML_Parse malloc_ok (item_events t d @ rest) c = XML_Parse malloc_ok rest c'
           \<and> all_urls c' = Some (us @ item_url t d) \<and> url_count c' = length (us @ item_url t d)"
proof -
  from item_prefix_run [OF m, of t d rest c] obtain c7
    where c7: "XML_Parse malloc_ok (item_events t d @ rest) c =
                XML_Parse malloc_ok (EndElement ''item'' # rest) c7"
      "title c7 = c_str (take 255 t)" "description c7 = Some d"
      "all_urls c7 = all_urls c" "url_count c7 = url_count c" by blast
  from end_item_urls [OF m _ _ c7(3) c7(2), of us] c7(4,5) au obtain c'
    where "end_elem malloc_ok ''item'' c7 = Some c'"
      "all_urls c' = Some (us @ item_url t d)" "url_count c' = length (us @ item_url t d)"
    by auto
  then show ?thesis using c7(1) by auto
qed

lemma items_run:
  assumes m: "\<forall>n. malloc_ok n"
  shows "all_urls c = Some us \<Longrightarrow> url_count c = length us \<Longrightarrow>
         \<exists>c'. XML_Parse malloc_ok (concat (map (\<lambda>(t, d). item_events t d) items) @ rest) c
                 = XML_Parse malloc_ok rest c'
           \<and> all_urls c' = Some (us @ concat (map (\<lambda>(t, d). item_url t d) items))
           \<and> url_count c' = length (us @ concat (map (\<lambda>(t, d). item_url t d) items))"
proof (induction items arbitrary: c us)
  case Nil
  then show ?case by auto
next
  case (Cons it items)
  obtain t d where it: "it = (t, d)" by (cases it)
  from item_run [OF m Cons.prems, of t d "concat (map (\<lambda>(t, d). item_events t d) items) @ rest"]
  obtain c1 where c1: "XML_Parse malloc_ok
        (item_events t d @ concat (map (\<lambda>(t, d). item_events t d) items) @ rest) c
      = XML_Parse malloc_ok (concat (map (\<lambda>(t, d). item_events t d) items) @ rest) c1"
    "all_urls c1 = Some (us @ item_url t d)" "url_count c1 = length (us @ item_url t d)"
    by blast
  from Cons.IH [OF c1(2,3)] obtain c' where
    "XML_Parse malloc_ok (concat (map (\<lambda>(t, d). item_events t d) items) @ rest) c1
       = XML_Parse malloc_ok rest c'"
    "all_urls c' = Some ((us @ item_url t d) @ concat (map (\<lambda>(t, d). item_url t d) items))"
    "url_count c' = length ((us @ item_url t d) @ concat (map (\<lambda>(t, d). item_url t d) items))"
    by blast
  then show ?case using c1(1) it by auto
qed

text \<open>
  A feed of items yields the URLs of its items, in document order; with no URL the
  result is NULL and count 0.
\<close>

lemma extraction_in_document_order:
  assumes m: "\<forall>n. malloc_ok n"
  shows "xml_parse_all_cone_image_urls malloc_ok \<lparr>callbacks = feed_of items, status_ok = True\<rparr>
         = (if concat (map (\<lambda>(t, d). item_url t d) items) = [] then Some (None, 0)
            else Some (Some (concat (map (\<lambda>(t, d). item_url t d) items)),
                       length (concat (map (\<lambda>(t, d). item_url t d) items))))"
proof -
  let ?c0 = "ctx_zero\<lparr>url_capacity := 4, all_urls := Some []\<rparr>"
  have s: "start_elem malloc_ok ''rss'' ?c0 = ?c0" "start_elem malloc_ok ''channel'' ?c0 = ?c0"
    by (simp_all add: start_elem_outside ctx_zero_def)
  have a0: "all_urls ?c0 = Some []" "url_count ?c0 = length ([] :: string list)"
    by (simp_all add: ctx_zero_def)
  from items_run [OF m a0, of items "[EndElement ''channel'', EndElement ''rss'']"]
  obtain c' where c': "XML_Parse malloc_ok
        (concat (map (\<lambda>(t, d). item_events t d) items) @ [EndElement ''channel'', EndElement ''rss'']) ?c0
      = XML_Parse malloc_ok [EndElement ''channel'', EndElement ''rss''] c'"
    "all_urls c' = Some (concat (map (\<lambda>(t, d). item_url t d) items))"
    "url_count c' = length (concat (map (\<lambda>(t, d). item_url t d) items))"
    by auto
  have "XML_Parse malloc_ok (feed_of items) ?c0 = Some c'"
    unfolding feed_of_def using c'(1) by (simp add: s end_elem_other)
  then show ?thesis using m c'(2,3)
    by (simp add: xml_parse_all_cone_image_urls_def Let_def)
qed


text \<open>Where \<^verbatim>\<open>strstr\<close> and \<^verbatim>\<open>strchr\<close> find their matches.\<close>

lemma c_str_append: "CHR 0x00 \<notin> set p \<Longrightarrow> c_str (p @ r) = p @ c_str r"
  by (induction p) (auto simp: c_str_def)

lemma c_str_idem: "c_str (c_str s) = c_str s"
  by (simp add: c_str_def)

lemma find_sub_contains: "needle \<noteq> [] \<Longrightarrow> find_sub needle (p @ needle @ r) \<noteq> None"
proof (induction p)
  case Nil
  then show ?case by (cases needle) simp_all
next
  case (Cons x p)
  then show ?case by simp
qed

lemma title_contains_graphics:
  assumes "CHR 0x00 \<notin> set p" and "length p \<le> 247"
  shows "strstr (c_str (take 255 (p @ ''Graphics'' @ q))) ''Graphics'' \<noteq> None"
proof -
  let ?r = "take (255 - length (p @ ''Graphics'')) q"
  have t1: "take 255 ((p @ ''Graphics'') @ q) = take 255 (p @ ''Graphics'') @ ?r"
    by (rule take_append)
  have t2: "take 255 (p @ ''Graphics'') = p @ ''Graphics''"
    by (rule take_all) (use assms(2) in simp)
  have t3: "take 255 (p @ ''Graphics'' @ q) = p @ ''Graphics'' @ ?r"
    using t1 t2 by (simp only: append_assoc)
  have "CHR 0x00 \<notin> set (p @ ''Graphics'')" using assms(1) by simp
  then have "c_str ((p @ ''Graphics'') @ ?r) = (p @ ''Graphics'') @ c_str ?r"
    by (rule c_str_append)
  then have "c_str (take 255 (p @ ''Graphics'' @ q)) = p @ ''Graphics'' @ c_str ?r"
    using t3 by (simp only: append_assoc)
  moreover have "find_sub ''Graphics'' (p @ ''Graphics'' @ c_str ?r) \<noteq> None"
    by (rule find_sub_contains) simp
  ultimately show ?thesis
    by (metis strstr_def c_str_idem)
qed

lemma find_sub_extend:
  "find_sub needle (pre @ needle) = Some (length pre) \<Longrightarrow>
   find_sub needle (pre @ needle @ r) = Some (length pre)"
proof (induction pre)
  case Nil
  show ?case
  proof (cases "needle @ r")
    case Nil
    then show ?thesis by simp
  next
    case (Cons a list)
    have "take (length needle) (needle @ r) = needle" by simp
    then show ?thesis using Cons by simp
  qed
next
  case (Cons x xs)
  have k: "length needle \<le> length (x # xs @ needle)" by simp
  have ne: "take (length needle) (x # xs @ needle) \<noteq> needle"
    using Cons.prems by (auto split: if_splits)
  have t: "take (length needle) ((x # xs @ needle) @ r) = take (length needle) (x # xs @ needle)"
    using k by (simp only: take_append) simp
  have ne': "take (length needle) (x # xs @ needle @ r) \<noteq> needle"
    using ne t by simp
  have "find_sub needle (xs @ needle) = Some (length xs)"
    using Cons.prems ne by (auto split: if_splits)
  then have ih: "find_sub needle (xs @ needle @ r) = Some (length xs)"
    by (rule Cons.IH)
  have "find_sub needle (x # xs @ needle @ r) =
          map_option Suc (find_sub needle (xs @ needle @ r))"
    using ne' by (simp only: find_sub.simps if_False)
  then show ?case using ih by simp
qed

lemma find_sub_first_src:
  assumes "CHR 0x00 \<notin> set pre" and "strstr (pre @ src_attr) src_attr = Some (length pre)"
  shows "find_sub src_attr (pre @ src_attr @ r) = Some (length pre)"
proof -
  have "CHR 0x00 \<notin> set (pre @ src_attr)" using assms(1) by (simp add: src_attr_def)
  then have "c_str ((pre @ src_attr) @ []) = (pre @ src_attr) @ c_str []" by (rule c_str_append)
  then have "c_str (pre @ src_attr) = pre @ src_attr" by (simp add: c_str_def)
  then have "find_sub src_attr (pre @ src_attr) = Some (length pre)"
    using assms(2) by (simp add: strstr_def)
  then show ?thesis by (rule find_sub_extend)
qed

lemma strchr_quote:
  assumes "CHR 0x22 \<notin> set url" and "CHR 0x00 \<notin> set url"
  shows "strchr (url @ CHR 0x22 # r) (CHR 0x22) = Some (length url)"
proof -
  have "c_str (url @ CHR 0x22 # r) = url @ c_str (CHR 0x22 # r)"
    using assms(2) by (rule c_str_append)
  then have c: "c_str (url @ CHR 0x22 # r) = url @ CHR 0x22 # c_str r"
    by (simp add: c_str_def)
  have "takeWhile (\<lambda>c. c \<noteq> CHR 0x22) (url @ CHR 0x22 # c_str r) = url"
    using assms(1) by (induction url) auto
  then show ?thesis
    by (simp add: strchr_def c)
qed



lemma item_url_of_src:
  assumes g: "strstr (c_str (take 255 t)) ''Graphics'' \<noteq> None"
    and pre: "CHR 0x00 \<notin> set pre" "strstr (pre @ src_attr) src_attr = Some (length pre)"
    and url: "CHR 0x22 \<notin> set url" "CHR 0x00 \<notin> set url"
  shows "item_url t (pre @ src_attr @ url @ CHR 0x22 # post) = [url]"
proof -
  let ?d = "pre @ src_attr @ url @ CHR 0x22 # post"
  have "CHR 0x00 \<notin> set (pre @ src_attr @ url)"
    using pre(1) url(2) by (simp add: src_attr_def)
  then have "c_str ((pre @ src_attr @ url) @ CHR 0x22 # post)
             = (pre @ src_attr @ url) @ c_str (CHR 0x22 # post)"
    by (rule c_str_append)
  then have c: "c_str ?d = pre @ src_attr @ url @ CHR 0x22 # c_str post"
    by (simp add: c_str_def)
  have s: "strstr ?d src_attr = Some (length pre)"
    unfolding strstr_def c using pre by (rule find_sub_first_src)
  have l: "length src_attr = 5" by (simp add: src_attr_def)
  have dr: "drop (length pre + 5) (c_str ?d) = url @ CHR 0x22 # c_str post"
    unfolding c using l by simp
  have q: "strchr (url @ CHR 0x22 # c_str post) (CHR 0x22) = Some (length url)"
    using url by (rule strchr_quote)
  show ?thesis
    unfolding item_url_def src_attr_def [symmetric]
    using g s dr q by simp
qed

lemma item_url_no_src:
  "strstr d src_attr = None \<Longrightarrow> item_url t d = []"
  unfolding item_url_def src_attr_def [symmetric] by simp

lemma item_url_advisory: "item_url ''Advisory'' d = []"
  by (simp add: item_url_def strstr_def c_str_def)

text \<open>
  C8. A feed of two items whose titles contain \<open>Graphics\<close> (within the 255 characters
  the title buffer keeps) and whose descriptions contain \<open>src="http://a/1.png"\<close> and
  \<open>src="http://a/2.png"\<close>, each as the first \<open>src="\<close> of its description,
  followed by an item titled \<open>Advisory\<close>, yields the two URLs in document order
  with count 2. An item whose description has no \<open>src="\<close>, whatever its title and
  whatever \<open>href="..."\<close> it holds, adds nothing to the sequence.
\<close>

theorem feed_extraction_in_document_order:
  assumes m: "\<forall>n. malloc_ok n"
    and t1: "CHR 0x00 \<notin> set p1" "length p1 \<le> 247"
    and t2: "CHR 0x00 \<notin> set p2" "length p2 \<le> 247"
    and d1: "CHR 0x00 \<notin> set pre1" \<open>strstr (pre1 @ ''src="'') ''src="'' = Some (length pre1)\<close>
    and d2: "CHR 0x00 \<notin> set pre2" \<open>strstr (pre2 @ ''src="'') ''src="'' = Some (length pre2)\<close>
    and d4: \<open>strstr d4 ''src="'' = None\<close>
  shows \<open>xml_parse_all_cone_image_urls malloc_ok
           \<lparr>callbacks = feed_of [(p1 @ ''Graphics'' @ q1, pre1 @ ''src="http://a/1.png"'' @ post1),
                                  (p2 @ ''Graphics'' @ q2, pre2 @ ''src="http://a/2.png"'' @ post2),
                                  (''Advisory'', d3)],
            status_ok = True\<rparr>
         = Some (Some [''http://a/1.png'', ''http://a/2.png''], 2)
       \<and> xml_parse_all_cone_image_urls malloc_ok
           \<lparr>callbacks = feed_of [(p1 @ ''Graphics'' @ q1, pre1 @ ''src="http://a/1.png"'' @ post1),
                                  (t4, d4),
                                  (p2 @ ''Graphics'' @ q2, pre2 @ ''src="http://a/2.png"'' @ post2)],
            status_ok = True\<rparr>
         = Some (Some [''http://a/1.png'', ''http://a/2.png''], 2)\<close>
proof -
  have e1: \<open>pre1 @ ''src="http://a/1.png"'' @ post1
            = pre1 @ src_attr @ ''http://a/1.png'' @ CHR 0x22 # post1\<close>
    by (simp add: src_attr_def)
  have e2: \<open>pre2 @ ''src="http://a/2.png"'' @ post2
            = pre2 @ src_attr @ ''http://a/2.png'' @ CHR 0x22 # post2\<close>
    by (simp add: src_attr_def)
  have u1: \<open>item_url (p1 @ ''Graphics'' @ q1) (pre1 @ ''src="http://a/1.png"'' @ post1)
            = [''http://a/1.png'']\<close>
    unfolding e1
    by (rule item_url_of_src [OF title_contains_graphics [OF t1] d1(1)])
       (use d1(2) in \<open>simp_all add: src_attr_def\<close>)
  have u2: \<open>item_url (p2 @ ''Graphics'' @ q2) (pre2 @ ''src="http://a/2.png"'' @ post2)
            = [''http://a/2.png'']\<close>
    unfolding e2
    by (rule item_url_of_src [OF title_contains_graphics [OF t2] d2(1)])
       (use d2(2) in \<open>simp_all add: src_attr_def\<close>)
  have u4: "item_url t4 d4 = []"
    using d4 by (intro item_url_no_src) (simp add: src_attr_def)
  have a: \<open>concat (map (\<lambda>(t, d). item_url t d)
               [(p1 @ ''Graphics'' @ q1, pre1 @ ''src="http://a/1.png"'' @ post1),
                (p2 @ ''Graphics'' @ q2, pre2 @ ''src="http://a/2.png"'' @ post2),
                (''Advisory'', d3)]) = [''http://a/1.png'', ''http://a/2.png'']\<close>
    using u1 u2 item_url_advisory [of d3] by simp
  have b: \<open>concat (map (\<lambda>(t, d). item_url t d)
               [(p1 @ ''Graphics'' @ q1, pre1 @ ''src="http://a/1.png"'' @ post1),
                (t4, d4),
                (p2 @ ''Graphics'' @ q2, pre2 @ ''src="http://a/2.png"'' @ post2)])
             = [''http://a/1.png'', ''http://a/2.png'']\<close>
    using u1 u2 u4 by simp
  show ?thesis
    unfolding extraction_in_document_order [OF m] a b by simp
qed


theorem feed_extraction_in_document_order_witness:
  \<open>xml_parse_all_cone_image_urls (\<lambda>n. True)
      \<lparr>callbacks = feed_of [(''Graphics Update'', ''<a href="http://a/1.html"><img src="http://a/1.png">''),
                             (''Graphics Update'', ''<img src="http://a/2.png">''),
                             (''Advisory'', ''Read the advisory'')],
       status_ok = True\<rparr>
    = Some (Some [''http://a/1.png'', ''http://a/2.png''], 2)
   \<and> xml_parse_all_cone_image_urls (\<lambda>n. True)
      \<lparr>callbacks = feed_of [(''Graphics Update'', ''<a href="http://a/1.html"><img src="http://a/1.png">''),
                             (''Graphics Update'', ''<a href="http://a/cone.html">cone</a>''),
                             (''Graphics Update'', ''<img src="http://a/2.png">'')],
       status_ok = True\<rparr>
    = Some (Some [''http://a/1.png'', ''http://a/2.png''], 2)\<close>
  using feed_extraction_in_document_order
          [of "\<lambda>n. True" "[]" "[]" \<open>''<a href="http://a/1.html"><img ''\<close> "''<img ''"
              \<open>''<a href="http://a/cone.html">cone</a>''\<close>
              "'' Update''" "''>''" "'' Update''" "''>''" "''Read the advisory''"
              "''Graphics Update''"]
  by (simp add: strstr_def c_str_def)

end
